theory Spec2Isabelle
  imports Complex_Main "HOL-Library.Log_Nat"
begin

section \<open>Python values used by vibrate.py\<close>

text \<open>
  A Python \<open>str\<close> is a sequence of Unicode code points; it is modelled as the list of
  those code points. ASCII literals of the source are written with \<open>ascii\<close>, the other
  characters (the block glyphs, the rule, the emoji) by their code point.
\<close>

type_synonym pystr = "nat list"

definition ascii :: "string \<Rightarrow> pystr" where
  "ascii s = map of_char s"

text \<open>The exceptions that the operations of the program can raise.\<close>

datatype py_error =
    SystemExit int
  | ZeroDivisionError
  | OverflowError
  | ValueError
  | KeyError

subsection \<open>Floats\<close>

text \<open>
  A Python \<open>float\<close> is an IEEE 754 binary64 number. A finite one is modelled by the
  rational it denotes (the sign of a zero is not kept: no operation of the program
  observes it). Every operation computes the exact rational result and rounds it to the
  nearest binary64 number, ties to even: 53 bits of precision, the quantum of the
  subnormal range below \<open>2 powi (- 1022)\<close>, infinity from \<open>2 powi 1024\<close> on.
\<close>

datatype pyfloat = Finite rat | PosInf | NegInf | NaN

text \<open>\<open>ilog2 q\<close> is the integer \<open>e\<close> with \<open>2 powi e \<le> q < 2 powi (e + 1)\<close>, for \<open>0 < q\<close>.\<close>

definition ilog2 :: "rat \<Rightarrow> int" where
  "ilog2 q = (case quotient_of q of (a, b) \<Rightarrow>
     (let e = bitlen a - bitlen b in if 2 powi e \<le> q then e else e - 1))"

definition round_half_even :: "rat \<Rightarrow> int" where
  "round_half_even x = (let f = \<lfloor>x\<rfloor>; r = x - of_int f in
     if r < 1 / 2 then f else if 1 / 2 < r then f + 1 else if even f then f else f + 1)"

definition round_pos :: "rat \<Rightarrow> pyfloat" where
  "round_pos q = (let e = max (ilog2 q) (- 1022) - 52;
                      y = of_int (round_half_even (q / 2 powi e)) * 2 powi e
                  in if 2 powi 1024 \<le> y then PosInf else Finite y)"

fun fneg :: "pyfloat \<Rightarrow> pyfloat" where
  "fneg (Finite q) = Finite (- q)"
| "fneg PosInf = NegInf"
| "fneg NegInf = PosInf"
| "fneg NaN = NaN"

definition round_double :: "rat \<Rightarrow> pyfloat" where
  "round_double q = (if q = 0 then Finite 0 else if 0 < q then round_pos q
                     else fneg (round_pos (- q)))"

text \<open>A decimal literal of the source, such as \<open>0.1\<close>, denotes the nearest binary64 number.\<close>

definition float_literal :: "rat \<Rightarrow> pyfloat" where
  "float_literal q = round_double q"

fun is_negative :: "pyfloat \<Rightarrow> bool" where
  "is_negative (Finite q) = (q < 0)"
| "is_negative PosInf = False"
| "is_negative NegInf = True"
| "is_negative NaN = False"

text \<open>\<open>x * y\<close> on floats: it never raises; an overflow gives an infinity.\<close>

definition fmul :: "pyfloat \<Rightarrow> pyfloat \<Rightarrow> pyfloat" where
  "fmul x y = (case (x, y) of
       (Finite a, Finite b) \<Rightarrow> round_double (a * b)
     | _ \<Rightarrow> if x = NaN \<or> y = NaN \<or> x = Finite 0 \<or> y = Finite 0 then NaN
            else if is_negative x = is_negative y then PosInf else NegInf)"

text \<open>\<open>x / y\<close> on floats: a zero divisor raises \<open>ZeroDivisionError\<close>, whatever \<open>x\<close> is.\<close>

definition fdiv :: "pyfloat \<Rightarrow> pyfloat \<Rightarrow> py_error + pyfloat" where
  "fdiv x y = (if y = Finite 0 then Inl ZeroDivisionError
     else Inr (case (x, y) of
         (Finite a, Finite b) \<Rightarrow> round_double (a / b)
       | (Finite a, _) \<Rightarrow> if y = NaN then NaN else Finite 0
       | (_, Finite b) \<Rightarrow> if x = NaN then NaN
                          else if is_negative x = is_negative y then PosInf else NegInf
       | _ \<Rightarrow> NaN))"

text \<open>
  An \<open>int\<close> operand of a float operation is converted first; an \<open>int\<close> beyond the
  range of binary64 raises \<open>OverflowError\<close>.
\<close>

definition float_of_int :: "int \<Rightarrow> py_error + pyfloat" where
  "float_of_int n = (case round_double (of_int n) of
       Finite y \<Rightarrow> Inr (Finite y)
     | _ \<Rightarrow> Inl OverflowError)"

definition float_mul_int :: "pyfloat \<Rightarrow> int \<Rightarrow> py_error + pyfloat" where
  "float_mul_int x n = (case float_of_int n of Inl e \<Rightarrow> Inl e | Inr y \<Rightarrow> Inr (fmul x y))"

definition float_div_int :: "pyfloat \<Rightarrow> int \<Rightarrow> py_error + pyfloat" where
  "float_div_int x n = (case float_of_int n of Inl e \<Rightarrow> Inl e | Inr y \<Rightarrow> fdiv x y)"

text \<open>
  \<open>int(x)\<close> of a float truncates towards zero; an infinity raises \<open>OverflowError\<close>,
  a NaN raises \<open>ValueError\<close>.
\<close>

fun py_int :: "pyfloat \<Rightarrow> py_error + int" where
  "py_int (Finite q) = Inr (if 0 \<le> q then \<lfloor>q\<rfloor> else \<lceil>q\<rceil>)"
| "py_int PosInf = Inl OverflowError"
| "py_int NegInf = Inl OverflowError"
| "py_int NaN = Inl ValueError"

subsection \<open>Strings\<close>

text \<open>\<open>s * n\<close>: the string repeated \<open>n\<close> times, empty when \<open>n\<close> is not positive.\<close>

definition str_mul :: "pystr \<Rightarrow> int \<Rightarrow> pystr" where
  "str_mul s n = concat (replicate (nat n) s)"

fun digits10 :: "nat \<Rightarrow> pystr" where
  "digits10 n = (if n < 10 then [48 + n] else digits10 (n div 10) @ [48 + n mod 10])"

text \<open>\<open>str(i)\<close>, as an f-string formats an \<open>int\<close>.\<close>

definition str_int :: "int \<Rightarrow> pystr" where
  "str_int i = (if i < 0 then 45 # digits10 (nat (- i)) else digits10 (nat i))"

text \<open>
  \<open>s.upper()\<close>, exact on ASCII strings; the program applies it to the three intensity
  names only.
\<close>

definition upper :: "pystr \<Rightarrow> pystr" where
  "upper s = map (\<lambda>c. if 97 \<le> c \<and> c \<le> 122 then c - 32 else c) s"

text \<open>The code points that \<open>str.strip()\<close> removes (those with \<open>str.isspace()\<close>).\<close>

definition isspace :: "nat \<Rightarrow> bool" where
  "isspace c = ((9 \<le> c \<and> c \<le> 13) \<or> (28 \<le> c \<and> c \<le> 32) \<or> c = 0x85 \<or> c = 0xA0
     \<or> c = 0x1680 \<or> (0x2000 \<le> c \<and> c \<le> 0x200A) \<or> c = 0x2028 \<or> c = 0x2029
     \<or> c = 0x202F \<or> c = 0x205F \<or> c = 0x3000)"

definition strip :: "pystr \<Rightarrow> pystr" where
  "strip s = rev (dropWhile isspace (rev (dropWhile isspace s)))"

text \<open>
  \<open>s.split(sep)\<close> for a one-character separator: the pieces between the separators,
  so one piece more than there are separators. \<open>acc\<close> holds the current piece, reversed.
\<close>

fun split_acc :: "nat \<Rightarrow> pystr \<Rightarrow> pystr \<Rightarrow> pystr list" where
  "split_acc sep acc [] = [rev acc]"
| "split_acc sep acc (c # cs) =
     (if c = sep then rev acc # split_acc sep [] cs else split_acc sep (c # acc) cs)"

definition split :: "pystr \<Rightarrow> nat \<Rightarrow> pystr list" where
  "split s sep = split_acc sep [] s"

text \<open>\<open>range(n)\<close> and \<open>range(a, b)\<close>.\<close>

definition range1 :: "int \<Rightarrow> int list" where
  "range1 n = [0..n - 1]"

definition range2 :: "int \<Rightarrow> int \<Rightarrow> int list" where
  "range2 a b = [a..b - 1]"

section \<open>Effects\<close>

text \<open>
  The program writes to standard output and sleeps. A run is modelled by the list of
  these events, in order, and by how it ended: \<open>None\<close> when the code ran to its end,
  \<open>Some e\<close> when the exception \<open>e\<close> was raised and not caught (the program has no
  handler). The library calls \<open>print\<close>, \<open>sys.stdout.write\<close>, \<open>sys.stdout.flush\<close>
  and \<open>time.sleep\<close> are recorded with their argument and taken to succeed.
\<close>

datatype event = Write pystr | Flush | Sleep pyfloat

type_synonym outcome = "event list \<times> py_error option"

definition skip :: outcome where
  "skip = ([], None)"

definition raise :: "py_error \<Rightarrow> outcome" where
  "raise e = ([], Some e)"

text \<open>\<open>seq a b\<close>: the statement \<open>a\<close>, then \<open>b\<close> unless \<open>a\<close> raised.\<close>

definition seq :: "outcome \<Rightarrow> outcome \<Rightarrow> outcome" where
  "seq a b = (case snd a of Some e \<Rightarrow> a | None \<Rightarrow> (fst a @ fst b, snd b))"

fun run :: "outcome list \<Rightarrow> outcome" where
  "run [] = skip"
| "run (a # as) = seq a (run as)"

text \<open>A \<open>for\<close> loop: the body once per element, stopping at the first exception.\<close>

fun for_each :: "('a \<Rightarrow> outcome) \<Rightarrow> 'a list \<Rightarrow> outcome" where
  "for_each body [] = skip"
| "for_each body (x # xs) = seq (body x) (for_each body xs)"

definition print :: "pystr \<Rightarrow> outcome" where
  "print s = ([Write (s @ [10])], None)"

definition stdout_write :: "pystr \<Rightarrow> outcome" where
  "stdout_write s = ([Write s], None)"

definition stdout_flush :: outcome where
  "stdout_flush = ([Flush], None)"

definition sleep :: "pyfloat \<Rightarrow> outcome" where
  "sleep t = ([Sleep t], None)"

definition sys_exit :: "int \<Rightarrow> outcome" where
  "sys_exit n = raise (SystemExit n)"

text \<open>The text that a run has written to standard output.\<close>

fun stdout_text :: "event list \<Rightarrow> pystr" where
  "stdout_text [] = []"
| "stdout_text (Write s # es) = s @ stdout_text es"
| "stdout_text (Flush # es) = stdout_text es"
| "stdout_text (Sleep t # es) = stdout_text es"

text \<open>
  The exit status of the process: 0 when \<open>main\<close> returns, the argument of \<open>sys.exit\<close>,
  and 1 for any other uncaught exception.
\<close>

fun exit_code :: "py_error option \<Rightarrow> int" where
  "exit_code None = 0"
| "exit_code (Some (SystemExit n)) = n"
| "exit_code (Some e) = 1"

section \<open>The intensity catalogue\<close>

datatype VibrationIntensity = LIGHT | MEDIUM | HEAVY

fun intensity_name :: "VibrationIntensity \<Rightarrow> pystr" where
  "intensity_name LIGHT = ascii ''light''"
| "intensity_name MEDIUM = ascii ''medium''"
| "intensity_name HEAVY = ascii ''heavy''"

fun duration :: "VibrationIntensity \<Rightarrow> pyfloat" where
  "duration LIGHT = float_literal (1 / 10)"
| "duration MEDIUM = float_literal (3 / 10)"
| "duration HEAVY = float_literal (5 / 10)"

fun symbol :: "VibrationIntensity \<Rightarrow> pystr" where
  "symbol LIGHT = ascii ''~''"
| "symbol MEDIUM = [0x2248]"
| "symbol HEAVY = [0x224B]"

fun block :: "VibrationIntensity \<Rightarrow> pystr" where
  "block LIGHT = [0x2591]"
| "block MEDIUM = [0x2592]"
| "block HEAVY = [0x2593]"

section \<open>VibrationSimulator\<close>

definition colors :: "(string \<times> pystr) list" where
  "colors =
    [(''reset'', 27 # ascii ''[0m''),
     (''blue'', 27 # ascii ''[94m''),
     (''green'', 27 # ascii ''[92m''),
     (''yellow'', 27 # ascii ''[93m''),
     (''red'', 27 # ascii ''[91m''),
     (''bold'', 27 # ascii ''[1m''),
     (''purple'', 27 # ascii ''[95m'')]"

text \<open>
  \<open>color\<close>: \<open>self.colors.get(color_name, '')\<close>, the text, \<open>self.colors['reset']\<close>.
  The key \<open>reset\<close> is in the dictionary (lemma \<open>colors_reset\<close>).
\<close>

definition color :: "pystr \<Rightarrow> string \<Rightarrow> pystr" where
  "color text color_name =
     (case map_of colors color_name of None \<Rightarrow> [] | Some c \<Rightarrow> c) @ text
       @ the (map_of colors ''reset'')"

text \<open>
  \<open>_animate_vibration\<close>; its parameter \<open>duration\<close> is written \<open>dur\<close>, the name
  \<open>duration\<close> being the field of the catalogue.
\<close>

definition animate_step :: "pyfloat \<Rightarrow> int \<Rightarrow> outcome" where
  "animate_step dur steps =
     run [stdout_write (ascii ''.''),
          stdout_flush,
          (case float_div_int dur steps of Inl e \<Rightarrow> raise e | Inr t \<Rightarrow> sleep t)]"

definition animate_vibration :: "pyfloat \<Rightarrow> outcome" where
  "animate_vibration dur =
     (case float_mul_int dur 10 of Inl e \<Rightarrow> raise e | Inr p \<Rightarrow>
     (case py_int p of Inl e \<Rightarrow> raise e | Inr steps \<Rightarrow>
        run [for_each (\<lambda>_. animate_step dur steps) (range1 steps),
             print []]))"

definition vibrate_step :: "VibrationIntensity \<Rightarrow> int \<Rightarrow> int \<Rightarrow> outcome" where
  "vibrate_step intensity count i =
     (case float_mul_int (duration intensity) 60 of Inl e \<Rightarrow> raise e | Inr p \<Rightarrow>
     (case py_int p of Inl e \<Rightarrow> raise e | Inr bar_length \<Rightarrow>
       (let bar = str_mul (block intensity) bar_length;
            colored_bar =
              (if intensity = LIGHT then color bar ''green''
               else if intensity = MEDIUM then color bar ''yellow''
               else color bar ''red'')
        in run [print (ascii ''['' @ str_int i @ ascii ''/'' @ str_int count @ ascii ''] ''
                        @ color (upper (intensity_name intensity)) ''bold''
                        @ ascii '': '' @ colored_bar),
                animate_vibration (duration intensity),
                (if i < count then sleep (float_literal (2 / 10)) else skip)])))"

definition vibrate :: "VibrationIntensity \<Rightarrow> int \<Rightarrow> outcome" where
  "vibrate intensity count =
     run [print (color (0x1F50A # ascii '' Vibration Simulator'') ''bold''),
          print (color (str_mul [0x2501] 40) ''blue''),
          for_each (vibrate_step intensity count) (range2 1 (count + 1)),
          print (color (str_mul [0x2501] 40) ''blue''),
          print (color (0x2705 # ascii '' Vibration complete!'') ''green'')]"

text \<open>One turn of the loop of \<open>play_pattern\<close>, on a pair of \<open>enumerate(pattern)\<close>.\<close>

definition play_step :: "VibrationIntensity list \<Rightarrow> nat \<times> VibrationIntensity \<Rightarrow> outcome" where
  "play_step pattern = (\<lambda>(index, intensity).
     seq (print (color (10 # ascii ''Step '' @ str_int (int index + 1) @ ascii ''/''
                        @ str_int (int (length pattern)) @ ascii '': ''
                        @ intensity_name intensity) ''bold''))
     (case float_mul_int (duration intensity) 60 of Inl e \<Rightarrow> raise e | Inr p \<Rightarrow>
     (case py_int p of Inl e \<Rightarrow> raise e | Inr bar_length \<Rightarrow>
       (let bar = str_mul (block intensity) bar_length;
            colored_bar =
              (if intensity = LIGHT then color bar ''green''
               else if intensity = MEDIUM then color bar ''yellow''
               else color bar ''red'')
        in run [print colored_bar,
                animate_vibration (duration intensity),
                (if int index < int (length pattern) - 1 then sleep (float_literal (3 / 10))
                 else skip)]))))"

definition play_pattern :: "VibrationIntensity list \<Rightarrow> outcome" where
  "play_pattern pattern =
     run [print (color (0x1F3B5 # ascii '' Playing vibration pattern...'') ''purple''),
          print (color (str_mul [0x2501] 40) ''blue''),
          for_each (play_step pattern) (enumerate 0 pattern),
          print (color (str_mul [10, 0x2501] 40) ''blue''),
          print (color (0x2705 # ascii '' Pattern complete!'') ''green'')]"

section \<open>main\<close>

text \<open>
  The command line, as the value each option receives (\<open>None\<close> when the option is not
  given); the text of \<open>--count\<close> is already converted by \<open>int\<close>. How \<open>argparse\<close>
  reads these values from \<open>sys.argv\<close> is not modelled.
\<close>

record command_line =
  arg_intensity :: "pystr option"
  arg_count :: "int option"
  arg_pattern :: "pystr option"

text \<open>The namespace that \<open>parser.parse_args()\<close> returns.\<close>

record namespace =
  intensity :: pystr
  count :: int
  pattern :: "pystr option"

definition choices :: "pystr list" where
  "choices = [ascii ''light'', ascii ''medium'', ascii ''heavy'']"

text \<open>
  \<open>parse_args\<close>: the defaults of the three \<open>add_argument\<close> calls, and the check of
  \<open>--intensity\<close> against \<open>choices\<close>. On a value outside \<open>choices\<close> \<open>argparse\<close> prints its
  usage message to standard error and exits with status 2 (\<open>ArgumentParser.error\<close>).
\<close>

definition parse_args :: "command_line \<Rightarrow> py_error + namespace" where
  "parse_args argv =
     (let i = (case arg_intensity argv of None \<Rightarrow> ascii ''medium'' | Some v \<Rightarrow> v);
          c = (case arg_count argv of None \<Rightarrow> 1 | Some n \<Rightarrow> n)
      in if i \<in> set choices
         then Inr \<lparr>intensity = i, count = c, pattern = arg_pattern argv\<rparr>
         else Inl (SystemExit 2))"

text \<open>
  The loop over \<open>pattern_names\<close>: \<open>Inr\<close> the list built when every name is known,
  \<open>Inl\<close> the end of the run at the first unknown name.
\<close>

fun build_pattern :: "pystr list \<Rightarrow> VibrationIntensity list \<Rightarrow> outcome + VibrationIntensity list" where
  "build_pattern [] pat = Inr pat"
| "build_pattern (name # names) pat =
     (if name = ascii ''light'' then build_pattern names (pat @ [LIGHT])
      else if name = ascii ''medium'' then build_pattern names (pat @ [MEDIUM])
      else if name = ascii ''heavy'' then build_pattern names (pat @ [HEAVY])
      else Inl (run [print (0x274C # ascii '' Error: Invalid intensity '' @ [39] @ name
                            @ [39] @ ascii '' in pattern''),
                     sys_exit 1]))"

definition intensity_map :: "(pystr \<times> VibrationIntensity) list" where
  "intensity_map =
     [(ascii ''light'', LIGHT), (ascii ''medium'', MEDIUM), (ascii ''heavy'', HEAVY)]"

text \<open>The body of \<open>main\<close> after \<open>parse_args\<close>.\<close>

definition main_body :: "namespace \<Rightarrow> outcome" where
  "main_body args =
     (if count args < 1
      then run [print (0x274C # ascii '' Error: Count must be a positive number''), sys_exit 1]
      else if pattern args \<noteq> None \<and> pattern args \<noteq> Some []
      then (case build_pattern (map strip (split (the (pattern args)) 44)) [] of
              Inl stop \<Rightarrow> stop
            | Inr pat \<Rightarrow> play_pattern pat)
      else (case map_of intensity_map (intensity args) of
              None \<Rightarrow> raise KeyError
            | Some i \<Rightarrow> vibrate i (count args)))"

definition main :: "command_line \<Rightarrow> outcome" where
  "main argv = (case parse_args argv of Inl e \<Rightarrow> raise e | Inr args \<Rightarrow> main_body args)"

section \<open>Properties\<close>

lemma colors_reset: "map_of colors ''reset'' = Some (27 # ascii ''[0m'')"
  by (simp add: colors_def)

subsection \<open>Rounding to binary64\<close>

lemma bitlen_rat_bounds:
  assumes "0 < a"
  shows "(2::rat) powi (bitlen a - 1) \<le> of_int a" and "of_int a < (2::rat) powi (bitlen a)"
proof -
  from assms have b1: "1 \<le> bitlen a"
    by (simp add: bitlen_alt_def)
  from bitlen_bounds [OF assms]
  have lo: "2 ^ nat (bitlen a - 1) \<le> a" and hi: "a < 2 ^ nat (bitlen a)"
    by simp_all
  have "(2::rat) powi (bitlen a - 1) = 2 ^ nat (bitlen a - 1)"
    using b1 by (simp add: power_int_nonneg_exp)
  also have "\<dots> = of_int (2 ^ nat (bitlen a - 1))"
    by simp
  also have "\<dots> \<le> of_int a"
    using lo by (simp only: of_int_le_iff)
  finally show "(2::rat) powi (bitlen a - 1) \<le> of_int a" .
  have "(of_int a :: rat) < of_int (2 ^ nat (bitlen a))"
    using hi by (simp only: of_int_less_iff)
  also have "\<dots> = 2 ^ nat (bitlen a)"
    by simp
  also have "\<dots> = (2::rat) powi (bitlen a)"
    using b1 by (simp add: power_int_nonneg_exp)
  finally show "of_int a < (2::rat) powi (bitlen a)" .
qed

lemma pow2_pos [simp]: "0 < (2::rat) powi e"
  by simp

lemma pow2_split: "(2::rat) powi (a + b) = 2 powi a * 2 powi b"
  by (simp add: power_int_add)

lemma pow2_le_iff: "(2::rat) powi a \<le> 2 powi b \<longleftrightarrow> a \<le> b"
proof
  assume le: "(2::rat) powi a \<le> 2 powi b"
  show "a \<le> b"
  proof (rule ccontr)
    assume "\<not> a \<le> b"
    then have "(2::rat) powi b < 2 powi a"
      by (intro power_int_strict_increasing) simp_all
    with le show False by simp
  qed
next
  assume "a \<le> b"
  then show "(2::rat) powi a \<le> 2 powi b"
    by (intro power_int_increasing) simp_all
qed

lemma pow2_less_iff: "(2::rat) powi a < 2 powi b \<longleftrightarrow> a < b"
  by (metis linorder_not_le pow2_le_iff)

lemma ilog2_bounds:
  assumes "0 < q"
  shows "2 powi (ilog2 q) \<le> q" and "q < 2 powi (ilog2 q + 1)"
proof -
  obtain a b where ab: "quotient_of q = (a, b)"
    by (cases "quotient_of q")
  then have bpos: "0 < b" and q: "q = of_int a / of_int b"
    by (simp_all add: quotient_of_denom_pos quotient_of_div)
  with assms have apos: "0 < a"
    by (simp add: zero_less_divide_iff)
  define e where "e = bitlen a - bitlen b"
  have bq: "0 < (of_int b :: rat)"
    using bpos by simp
  have "q * of_int b = of_int a"
    using q bq by simp
  have up: "q < 2 powi (e + 1)"
  proof -
    have "of_int a < (2::rat) powi (bitlen a)"
      by (rule bitlen_rat_bounds [OF apos])
    also have "\<dots> = 2 powi (e + 1) * 2 powi (bitlen b - 1)"
      by (simp add: e_def flip: pow2_split)
    also have "\<dots> \<le> 2 powi (e + 1) * of_int b"
      using bitlen_rat_bounds(1) [OF bpos] by simp
    finally have "of_int a < 2 powi (e + 1) * (of_int b :: rat)" .
    then show ?thesis
      using bq by (simp add: q pos_divide_less_eq)
  qed
  have lo: "2 powi (e - 1) < q"
  proof -
    have "2 powi (e - 1) * (of_int b :: rat) < 2 powi (e - 1) * 2 powi (bitlen b)"
      using bitlen_rat_bounds(2) [OF bpos] by simp
    also have "\<dots> = 2 powi (bitlen a - 1)"
      by (simp add: e_def flip: pow2_split)
    also have "\<dots> \<le> of_int a"
      by (rule bitlen_rat_bounds [OF apos])
    finally have "2 powi (e - 1) * (of_int b :: rat) < of_int a" .
    then show ?thesis
      using bq by (simp add: q pos_less_divide_eq)
  qed
  have il: "ilog2 q = (if 2 powi e \<le> q then e else e - 1)"
    by (simp add: ilog2_def ab e_def Let_def)
  show "2 powi (ilog2 q) \<le> q"
    using lo by (simp add: il)
  show "q < 2 powi (ilog2 q + 1)"
    using up by (simp add: il)
qed

lemma ilog2_unique:
  assumes "2 powi p \<le> q" and "q < 2 powi (p + 1)"
  shows "ilog2 q = p"
proof -
  have qpos: "0 < q"
    using assms(1) pow2_pos [of p] by linarith
  note b = ilog2_bounds [OF qpos]
  have "(2::rat) powi p < 2 powi (ilog2 q + 1)"
    using assms(1) b(2) by linarith
  then have 1: "p < ilog2 q + 1"
    by (simp only: pow2_less_iff)
  have "(2::rat) powi (ilog2 q) < 2 powi (p + 1)"
    using assms(2) b(1) by linarith
  then have 2: "ilog2 q < p + 1"
    by (simp only: pow2_less_iff)
  from 1 2 show ?thesis by simp
qed

lemma round_half_even_near:
  assumes "\<bar>x - of_int m\<bar> < 1 / 2"
  shows "round_half_even x = m"
proof (cases "of_int m \<le> x")
  case True
  with assms have "\<lfloor>x\<rfloor> = m"
    by (intro floor_unique) (simp_all add: abs_if split: if_splits)
  with assms True show ?thesis
    by (simp add: round_half_even_def Let_def abs_if split: if_splits)
next
  case False
  with assms have f: "\<lfloor>x\<rfloor> = m - 1"
    by (intro floor_unique) (simp_all add: abs_if split: if_splits)
  with assms False show ?thesis
    by (simp add: round_half_even_def Let_def abs_if split: if_splits)
qed

lemma round_half_even_le:
  assumes "x \<le> of_int n"
  shows "round_half_even x \<le> n"
proof -
  have fl: "\<lfloor>x\<rfloor> \<le> n"
    using assms by (simp add: floor_le_iff)
  show ?thesis
  proof (cases "\<lfloor>x\<rfloor> = n")
    case True
    then have "of_int n \<le> x"
      by (metis of_int_floor_le)
    with assms have "x = of_int n" by simp
    then show ?thesis
      by (simp add: round_half_even_def)
  next
    case False
    with fl have "\<lfloor>x\<rfloor> + 1 \<le> n" by simp
    then show ?thesis
      by (simp add: round_half_even_def Let_def)
  qed
qed

lemma round_half_even_ge:
  assumes "of_int n \<le> x"
  shows "n \<le> round_half_even x"
proof -
  have "n \<le> \<lfloor>x\<rfloor>"
    using assms by (simp add: le_floor_iff)
  then show ?thesis
    by (simp add: round_half_even_def Let_def)
qed

lemma round_pos_eq:
  assumes "2 powi p \<le> q" and "q < 2 powi (p + 1)"
    and "\<bar>q / 2 powi (max p (- 1022) - 52) - of_int m\<bar> < 1 / 2"
    and "of_int m * 2 powi (max p (- 1022) - 52) < (2::rat) powi 1024"
  shows "round_pos q = Finite (of_int m * 2 powi (max p (- 1022) - 52))"
  using assms(4)
  by (simp only: round_pos_def ilog2_unique [OF assms(1,2)] round_half_even_near [OF assms(3)]
        Let_def not_le [symmetric] if_False)

lemma mantissa_le:
  assumes "0 < z"
  shows "round_half_even (z / 2 powi (max (ilog2 z) (- 1022) - 52)) \<le> 2 ^ 53"
proof -
  define e where "e = max (ilog2 z) (- 1022) - 52"
  have "z < 2 powi (ilog2 z + 1)"
    by (rule ilog2_bounds [OF assms])
  also have "\<dots> \<le> 2 powi (e + 53)"
    by (simp only: pow2_le_iff) (simp add: e_def)
  also have "\<dots> = 2 powi e * 2 ^ 53"
    by (simp only: pow2_split) simp
  finally have "z / 2 powi e < 2 ^ 53"
    by (simp add: pos_divide_less_eq mult.commute)
  then have "z / 2 powi e \<le> of_int (2 ^ 53)"
    by simp
  then show ?thesis
    unfolding e_def by (rule round_half_even_le)
qed

lemma mantissa_ge:
  assumes "0 < z" and "- 1022 \<le> ilog2 z"
  shows "2 ^ 52 \<le> round_half_even (z / 2 powi (max (ilog2 z) (- 1022) - 52))"
proof -
  define e where "e = max (ilog2 z) (- 1022) - 52"
  have "(2::rat) powi e * 2 ^ 52 = 2 powi (e + 52)"
    by (simp only: pow2_split) simp
  also have "\<dots> = 2 powi (ilog2 z)"
    using assms(2) by (simp add: e_def)
  also have "\<dots> \<le> z"
    by (rule ilog2_bounds [OF assms(1)])
  finally have "of_int (2 ^ 52) \<le> z / 2 powi e"
    by (simp add: pos_le_divide_eq mult.commute)
  then show ?thesis
    unfolding e_def by (rule round_half_even_ge)
qed

lemma mantissa_nonneg:
  assumes "0 < z"
  shows "0 \<le> round_half_even (z / 2 powi e)"
proof -
  have "of_int 0 \<le> z / 2 powi e"
    using assms by simp
  then show ?thesis
    by (rule round_half_even_ge)
qed

lemma max_double_less: "(2 ^ 53 - 1) * 2 powi 971 < (2::rat) powi 1024"
proof -
  have "(2 ^ 53 - 1) * 2 powi 971 < 2 ^ 53 * (2::rat) powi 971"
    by (intro mult_strict_right_mono) simp_all
  also have "\<dots> = 2 powi (53 + 971)"
    by (simp only: pow2_split) simp
  finally show ?thesis by simp
qed

lemma pow2_1023_le: "(2::rat) powi 1023 \<le> (2 ^ 53 - 1) * 2 powi 971"
proof -
  have "(2::rat) powi 1023 = 2 powi (52 + 971)"
    by simp
  also have "\<dots> = 2 ^ 52 * 2 powi 971"
    by (simp only: pow2_split) simp
  also have "\<dots> \<le> (2 ^ 53 - 1) * 2 powi 971"
    by (intro mult_right_mono) simp_all
  finally show ?thesis .
qed

lemma round_pos_le_max:
  assumes "0 < z" and "round_pos z = Finite y"
  shows "0 \<le> y" and "y \<le> (2 ^ 53 - 1) * 2 powi 971"
proof -
  define e where "e = max (ilog2 z) (- 1022) - 52"
  define m where "m = round_half_even (z / 2 powi e)"
  have m0: "0 \<le> m"
    unfolding m_def by (rule mantissa_nonneg [OF assms(1)])
  have m53: "m \<le> 2 ^ 53"
    unfolding m_def e_def by (rule mantissa_le [OF assms(1)])
  from assms(2) have y: "y = of_int m * 2 powi e" and lt: "y < 2 powi 1024"
    by (simp_all add: round_pos_def Let_def e_def m_def split: if_splits)
  show "0 \<le> y"
    using m0 by (simp add: y)
  show "y \<le> (2 ^ 53 - 1) * 2 powi 971"
  proof (cases "m = 2 ^ 53")
    case True
    then have "y = 2 powi (e + 53)"
      by (simp only: y pow2_split) simp
    with lt have "e + 53 < 1024"
      by (simp only: pow2_less_iff)
    then have "e + 53 \<le> 1023" by simp
    then have "(2::rat) powi (e + 53) \<le> 2 powi 1023"
      by (simp only: pow2_le_iff)
    with \<open>y = 2 powi (e + 53)\<close> pow2_1023_le show ?thesis
      by linarith
  next
    case False
    with m53 have m': "m \<le> 2 ^ 53 - 1" by simp
    have e971: "e \<le> 971"
    proof (rule ccontr)
      assume "\<not> e \<le> 971"
      then have e972: "972 \<le> e" by simp
      then have "- 1022 \<le> ilog2 z"
        by (simp add: e_def)
      then have "2 ^ 52 \<le> m"
        unfolding m_def e_def by (rule mantissa_ge [OF assms(1)])
      then have "(of_int (2 ^ 52) :: rat) \<le> of_int m"
        by (simp only: of_int_le_iff)
      then have "(2::rat) ^ 52 \<le> of_int m"
        by simp
      moreover have "(2::rat) powi 972 \<le> 2 powi e"
        using e972 by (simp only: pow2_le_iff)
      ultimately have "(2::rat) ^ 52 * 2 powi 972 \<le> of_int m * 2 powi e"
        by (intro mult_mono) simp_all
      moreover have "(2::rat) ^ 52 * 2 powi 972 = 2 powi (52 + 972)"
        by (simp only: pow2_split) simp
      ultimately have "(2::rat) powi 1024 \<le> y"
        by (simp add: y)
      with lt show False by simp
    qed
    have "(of_int m :: rat) \<le> of_int (2 ^ 53 - 1)"
      using m' by (simp only: of_int_le_iff)
    then have "(of_int m :: rat) \<le> 2 ^ 53 - 1"
      by simp
    moreover have "(2::rat) powi e \<le> 2 powi 971"
      using e971 by (simp only: pow2_le_iff)
    ultimately have "of_int m * 2 powi e \<le> (2 ^ 53 - 1) * (2::rat) powi 971"
      by (intro mult_mono) simp_all
    then show ?thesis
      by (simp only: y)
  qed
qed

lemma round_pos_finite:
  assumes "0 < z" and "z \<le> (2 ^ 53 - 1) * 2 powi 971"
  shows "\<exists>t. round_pos z = Finite t \<and> 0 \<le> t \<and> (1 \<le> z \<longrightarrow> 0 < t)"
proof -
  define e where "e = max (ilog2 z) (- 1022) - 52"
  define m where "m = round_half_even (z / 2 powi e)"
  have m0: "0 \<le> m"
    unfolding m_def by (rule mantissa_nonneg [OF assms(1)])
  have m53: "m \<le> 2 ^ 53"
    unfolding m_def e_def by (rule mantissa_le [OF assms(1)])
  have "2 powi (ilog2 z) \<le> z"
    by (rule ilog2_bounds [OF assms(1)])
  also note assms(2)
  also note max_double_less
  finally have "ilog2 z < 1024"
    by (simp only: pow2_less_iff)
  then have e971: "e \<le> 971"
    by (simp add: e_def)
  have lt: "of_int m * 2 powi e < (2::rat) powi 1024"
  proof (cases "e = 971")
    case True
    have "z / 2 powi 971 \<le> 2 ^ 53 - 1"
      using assms(2) by (simp add: pos_divide_le_eq)
    then have "z / 2 powi e \<le> of_int (2 ^ 53 - 1)"
      by (simp add: True)
    then have "m \<le> 2 ^ 53 - 1"
      unfolding m_def by (rule round_half_even_le)
    then have "(of_int m :: rat) \<le> of_int (2 ^ 53 - 1)"
      by (simp only: of_int_le_iff)
    then have "(of_int m :: rat) \<le> 2 ^ 53 - 1"
      by simp
    then have "of_int m * 2 powi e \<le> (2 ^ 53 - 1) * (2::rat) powi 971"
      unfolding True by (intro mult_right_mono) simp_all
    with max_double_less show ?thesis
      by linarith
  next
    case False
    with e971 have "e \<le> 970" by simp
    then have "(2::rat) powi e \<le> 2 powi 970"
      by (simp only: pow2_le_iff)
    moreover have "(of_int m :: rat) \<le> of_int (2 ^ 53)"
      using m53 by (simp only: of_int_le_iff)
    then have "(of_int m :: rat) \<le> 2 ^ 53"
      by simp
    ultimately have "of_int m * 2 powi e \<le> 2 ^ 53 * (2::rat) powi 970"
      by (intro mult_mono) simp_all
    also have "\<dots> = 2 powi (53 + 970)"
      by (simp only: pow2_split) simp
    also have "\<dots> < 2 powi 1024"
      by (simp only: pow2_less_iff)
    finally show ?thesis .
  qed
  then have r: "round_pos z = Finite (of_int m * 2 powi e)"
    by (simp add: round_pos_def Let_def e_def m_def)
  have "0 < of_int m * (2::rat) powi e" if "1 \<le> z"
  proof -
    have "(2::rat) powi 0 \<le> z"
      using that by simp
    also have "z < 2 powi (ilog2 z + 1)"
      by (rule ilog2_bounds [OF assms(1)])
    finally have "0 < ilog2 z + 1"
      by (simp only: pow2_less_iff)
    then have "- 1022 \<le> ilog2 z" by simp
    then have "2 ^ 52 \<le> m"
      unfolding m_def e_def by (rule mantissa_ge [OF assms(1)])
    then have "0 < m" by simp
    then show ?thesis by simp
  qed
  with r m0 show ?thesis
    by simp
qed

subsection \<open>The floats of the catalogue\<close>

lemma round_double_pos: "0 < q \<Longrightarrow> round_double q = round_pos q"
  by (simp add: round_double_def)

lemma duration_eq:
  "duration i = Finite (case i of LIGHT \<Rightarrow> 3602879701896397 / 36028797018963968
                          | MEDIUM \<Rightarrow> 5404319552844595 / 18014398509481984
                          | HEAVY \<Rightarrow> 1 / 2)"
proof (cases i)
  case LIGHT
  then show ?thesis
    using round_pos_eq [of "- 4" "1 / 10" 7205759403792794]
    by (simp add: float_literal_def round_double_pos power_int_minus)
next
  case MEDIUM
  then show ?thesis
    using round_pos_eq [of "- 2" "3 / 10" 5404319552844595]
    by (simp add: float_literal_def round_double_pos power_int_minus)
next
  case HEAVY
  then show ?thesis
    using round_pos_eq [of "- 1" "1 / 2" 4503599627370496]
    by (simp add: float_literal_def round_double_pos power_int_minus)
qed

declare duration.simps [simp del]

lemma float_of_int_60: "float_of_int 60 = Inr (Finite 60)"
  using round_pos_eq [of 5 60 8444249301319680]
  by (simp add: float_of_int_def round_double_pos power_int_minus)

lemma float_of_int_10: "float_of_int 10 = Inr (Finite 10)"
  using round_pos_eq [of 3 10 5629499534213120]
  by (simp add: float_of_int_def round_double_pos power_int_minus)

lemma float_of_int_1: "float_of_int 1 = Inr (Finite 1)"
  using round_pos_eq [of 0 1 4503599627370496]
  by (simp add: float_of_int_def round_double_pos power_int_minus)

lemma float_of_int_3: "float_of_int 3 = Inr (Finite 3)"
  using round_pos_eq [of 1 3 6755399441055744]
  by (simp add: float_of_int_def round_double_pos power_int_minus)

lemma float_of_int_5: "float_of_int 5 = Inr (Finite 5)"
  using round_pos_eq [of 2 5 5629499534213120]
  by (simp add: float_of_int_def round_double_pos power_int_minus)

lemma bar_length_eq:
  "float_mul_int (duration i) 60 = Inr (Finite (case i of LIGHT \<Rightarrow> 6 | MEDIUM \<Rightarrow> 18 | HEAVY \<Rightarrow> 30))"
proof (cases i)
  case LIGHT
  then show ?thesis
    using round_pos_eq [of 2 "3602879701896397 / 36028797018963968 * 60" 6755399441055744]
    by (simp add: float_mul_int_def float_of_int_60 duration_eq fmul_def round_double_pos
        power_int_minus)
next
  case MEDIUM
  then show ?thesis
    using round_pos_eq [of 4 "5404319552844595 / 18014398509481984 * 60" 5066549580791808]
    by (simp add: float_mul_int_def float_of_int_60 duration_eq fmul_def round_double_pos
        power_int_minus)
next
  case HEAVY
  then show ?thesis
    using round_pos_eq [of 4 "1 / 2 * 60" 8444249301319680]
    by (simp add: float_mul_int_def float_of_int_60 duration_eq fmul_def round_double_pos
        power_int_minus)
qed

lemma steps_eq:
  "float_mul_int (duration i) 10 = Inr (Finite (case i of LIGHT \<Rightarrow> 1 | MEDIUM \<Rightarrow> 3 | HEAVY \<Rightarrow> 5))"
proof (cases i)
  case LIGHT
  then show ?thesis
    using round_pos_eq [of 0 "3602879701896397 / 36028797018963968 * 10" 4503599627370496]
    by (simp add: float_mul_int_def float_of_int_10 duration_eq fmul_def round_double_pos
        power_int_minus)
next
  case MEDIUM
  then show ?thesis
    using round_pos_eq [of 1 "5404319552844595 / 18014398509481984 * 10" 6755399441055744]
    by (simp add: float_mul_int_def float_of_int_10 duration_eq fmul_def round_double_pos
        power_int_minus)
next
  case HEAVY
  then show ?thesis
    using round_pos_eq [of 2 "1 / 2 * 10" 5629499534213120]
    by (simp add: float_mul_int_def float_of_int_10 duration_eq fmul_def round_double_pos
        power_int_minus)
qed

lemma tick_eq:
  "float_div_int (duration i) (case i of LIGHT \<Rightarrow> 1 | MEDIUM \<Rightarrow> 3 | HEAVY \<Rightarrow> 5)
     = Inr (Finite (case i of LIGHT \<Rightarrow> 3602879701896397 / 36028797018963968
                           | MEDIUM \<Rightarrow> 7205759403792793 / 72057594037927936
                           | HEAVY \<Rightarrow> 3602879701896397 / 36028797018963968))"
proof (cases i)
  case LIGHT
  then show ?thesis
    using round_pos_eq [of "- 4" "3602879701896397 / 36028797018963968" 7205759403792794]
    by (simp add: float_div_int_def float_of_int_1 duration_eq fdiv_def round_double_pos
        power_int_minus)
next
  case MEDIUM
  then show ?thesis
    using round_pos_eq [of "- 4" "5404319552844595 / 18014398509481984 / 3" 7205759403792793]
    by (simp add: float_div_int_def float_of_int_3 duration_eq fdiv_def round_double_pos
        power_int_minus)
next
  case HEAVY
  then show ?thesis
    using round_pos_eq [of "- 4" "1 / 2 / 5" 7205759403792794]
    by (simp add: float_div_int_def float_of_int_5 duration_eq fdiv_def round_double_pos
        power_int_minus)
qed

subsection \<open>Sequencing and loops\<close>

lemma seq_ok [simp]: "seq (es, None) b = (es @ fst b, snd b)"
  by (simp add: seq_def)

lemma seq_raised [simp]: "seq (es, Some e) b = (es, Some e)"
  by (simp add: seq_def)

lemma seq_skip [simp]: "seq skip b = b"
  by (simp add: skip_def)

lemma seq_None: "snd a = None \<Longrightarrow> seq a b = (fst a @ fst b, snd b)"
  by (simp add: seq_def)

lemma for_each_ok:
  assumes "\<And>x. x \<in> set xs \<Longrightarrow> snd (body x) = None"
  shows "for_each body xs = (concat (map (\<lambda>x. fst (body x)) xs), None)"
  using assms by (induction xs) (simp_all add: skip_def seq_None)

lemma for_each_const:
  "for_each (\<lambda>_. (es, None)) xs = (concat (replicate (length xs) es), None)"
  by (induction xs) (simp_all add: skip_def)

lemma length_range1 [simp]: "length (range1 n) = nat n"
  by (simp add: range1_def)

subsection \<open>The animation\<close>

lemma round_double_le_max:
  assumes "round_double z = Finite q"
  shows "q \<le> (2 ^ 53 - 1) * 2 powi 971"
proof -
  have m: "0 \<le> (2 ^ 53 - 1) * (2::rat) powi 971"
    by simp
  consider "z = 0" | "0 < z" | "z < 0" by linarith
  then show ?thesis
  proof cases
    case 1
    with assms m show ?thesis by (simp add: round_double_def)
  next
    case 2
    with assms have "round_pos z = Finite q" by (simp add: round_double_def)
    with 2 show ?thesis by (rule round_pos_le_max)
  next
    case 3
    with assms have f: "fneg (round_pos (- z)) = Finite q" by (simp add: round_double_def)
    then obtain y where y: "round_pos (- z) = Finite y" and q: "q = - y"
      by (cases "round_pos (- z)") auto
    from 3 have "0 < - z" by simp
    from round_pos_le_max(1) [OF this y] have "q \<le> 0" by (simp add: q)
    with m show ?thesis by linarith
  qed
qed

lemma float_of_int_pos:
  assumes "1 \<le> n" and "of_int n \<le> (2 ^ 53 - 1) * (2::rat) powi 971"
  shows "\<exists>s. float_of_int n = Inr (Finite s) \<and> 0 < s"
proof -
  have "0 < (of_int n :: rat)" and "1 \<le> (of_int n :: rat)"
    using assms(1) by simp_all
  from round_pos_finite [OF this(1) assms(2)] this(2)
  obtain t where "round_pos (of_int n) = Finite t" and "0 < t"
    by auto
  with \<open>0 < (of_int n :: rat)\<close> show ?thesis
    by (simp add: float_of_int_def round_double_def)
qed

lemma float_mul_int_10_finite:
  assumes "float_mul_int d 10 = Inr (Finite q)"
  obtains x where "d = Finite x" and "round_double (x * 10) = Finite q"
  using assms
  by (cases d) (simp_all add: float_mul_int_def float_of_int_10 fmul_def split: if_splits)

lemma tick_defined:
  assumes "float_mul_int d 10 = Inr (Finite q)" and "1 \<le> q"
  shows "\<exists>t. float_div_int d \<lfloor>q\<rfloor> = Inr t"
proof -
  from assms(1) obtain x where d: "d = Finite x" and r: "round_double (x * 10) = Finite q"
    by (rule float_mul_int_10_finite)
  have "of_int \<lfloor>q\<rfloor> \<le> q"
    by simp
  also have "q \<le> (2 ^ 53 - 1) * 2 powi 971"
    using r by (rule round_double_le_max)
  finally have le: "of_int \<lfloor>q\<rfloor> \<le> (2 ^ 53 - 1) * (2::rat) powi 971" .
  have "1 \<le> \<lfloor>q\<rfloor>"
    using assms(2) by (simp add: le_floor_iff)
  from float_of_int_pos [OF this le]
  obtain s where "float_of_int \<lfloor>q\<rfloor> = Inr (Finite s)" and "0 < s"
    by auto
  then show ?thesis
    by (simp add: float_div_int_def fdiv_def d)
qed

lemma animate_vibration_trace:
  assumes "float_mul_int d 10 = Inr (Finite q)"
  shows "\<exists>t. animate_vibration d
    = (concat (replicate (nat \<lfloor>q\<rfloor>) [Write [46], Flush, Sleep t]) @ [Write [10]], None)"
proof (cases "1 \<le> q")
  case True
  then have pos: "0 \<le> q" by simp
  from tick_defined [OF assms True] obtain t where t: "float_div_int d \<lfloor>q\<rfloor> = Inr t"
    by auto
  have "animate_step d \<lfloor>q\<rfloor> = ([Write [46], Flush, Sleep t], None)"
    by (simp add: animate_step_def t stdout_write_def stdout_flush_def sleep_def skip_def
        ascii_def)
  then have "animate_vibration d
    = (concat (replicate (nat \<lfloor>q\<rfloor>) [Write [46], Flush, Sleep t]) @ [Write [10]], None)"
    using pos by (simp add: animate_vibration_def assms for_each_const print_def skip_def)
  then show ?thesis ..
next
  case False
  then have "(if 0 \<le> q then \<lfloor>q\<rfloor> else \<lceil>q\<rceil>) \<le> 0"
    by (simp add: floor_le_iff ceiling_le_iff)
  moreover from False have "\<lfloor>q\<rfloor> \<le> 0"
    by (simp add: floor_le_iff)
  ultimately have "animate_vibration d = ([Write [10]], None)" and "nat \<lfloor>q\<rfloor> = 0"
    by (simp_all add: animate_vibration_def assms range1_def print_def skip_def)
  then show ?thesis by simp
qed

subsection \<open>One turn of the rendering loops\<close>

lemma concat_replicate_single: "concat (replicate n [x]) = replicate n x"
  by (induction n) simp_all

lemma animate_vibration_catalogue:
  "animate_vibration (duration i)
     = (concat (replicate (case i of LIGHT \<Rightarrow> 1 | MEDIUM \<Rightarrow> 3 | HEAVY \<Rightarrow> 5)
          [Write [46], Flush,
           Sleep (Finite (case i of LIGHT \<Rightarrow> 3602879701896397 / 36028797018963968
                                  | MEDIUM \<Rightarrow> 7205759403792793 / 72057594037927936
                                  | HEAVY \<Rightarrow> 3602879701896397 / 36028797018963968))])
        @ [Write [10]], None)"
proof -
  define n :: int where "n = (case i of LIGHT \<Rightarrow> 1 | MEDIUM \<Rightarrow> 3 | HEAVY \<Rightarrow> 5)"
  define t :: rat where "t = (case i of LIGHT \<Rightarrow> 3602879701896397 / 36028797018963968
                                  | MEDIUM \<Rightarrow> 7205759403792793 / 72057594037927936
                                  | HEAVY \<Rightarrow> 3602879701896397 / 36028797018963968)"
  have p: "float_mul_int (duration i) 10 = Inr (Finite (of_int n))"
    by (cases i) (simp_all add: steps_eq n_def)
  have n0: "0 \<le> n"
    by (cases i) (simp_all add: n_def)
  have "float_div_int (duration i) n = Inr (Finite t)"
    using tick_eq [of i] by (simp add: n_def t_def)
  then have "animate_step (duration i) n = ([Write [46], Flush, Sleep (Finite t)], None)"
    by (simp add: animate_step_def stdout_write_def stdout_flush_def sleep_def skip_def
        ascii_def)
  then have "animate_vibration (duration i)
     = (concat (replicate (nat n) [Write [46], Flush, Sleep (Finite t)]) @ [Write [10]], None)"
    using n0 by (simp add: animate_vibration_def p for_each_const print_def skip_def)
  moreover have "nat n = (case i of LIGHT \<Rightarrow> 1 | MEDIUM \<Rightarrow> 3 | HEAVY \<Rightarrow> 5)"
    by (cases i) (simp_all add: n_def)
  ultimately show ?thesis
    by (simp only: t_def)
qed

lemma colored_bar_eq:
  "(case float_mul_int (duration i) 60 of Inl e \<Rightarrow> raise e | Inr p \<Rightarrow>
     (case py_int p of Inl e \<Rightarrow> raise e | Inr bar_length \<Rightarrow>
        (let bar = str_mul (block i) bar_length;
             colored_bar =
               (if i = LIGHT then color bar ''green''
                else if i = MEDIUM then color bar ''yellow''
                else color bar ''red'')
         in f colored_bar)))
   = f (color (replicate (case i of LIGHT \<Rightarrow> 6 | MEDIUM \<Rightarrow> 18 | HEAVY \<Rightarrow> 30)
                 (case i of LIGHT \<Rightarrow> 0x2591 | MEDIUM \<Rightarrow> 0x2592 | HEAVY \<Rightarrow> 0x2593))
          (case i of LIGHT \<Rightarrow> ''green'' | MEDIUM \<Rightarrow> ''yellow'' | HEAVY \<Rightarrow> ''red''))"
  by (cases i) (simp_all add: bar_length_eq str_mul_def concat_replicate_single Let_def)

lemma vibrate_step_trace:
  "vibrate_step i c k =
     (Write (ascii ''['' @ str_int k @ ascii ''/'' @ str_int c @ ascii ''] ''
             @ color (upper (intensity_name i)) ''bold'' @ ascii '': ''
             @ color (replicate (case i of LIGHT \<Rightarrow> 6 | MEDIUM \<Rightarrow> 18 | HEAVY \<Rightarrow> 30)
                        (case i of LIGHT \<Rightarrow> 0x2591 | MEDIUM \<Rightarrow> 0x2592 | HEAVY \<Rightarrow> 0x2593))
                 (case i of LIGHT \<Rightarrow> ''green'' | MEDIUM \<Rightarrow> ''yellow'' | HEAVY \<Rightarrow> ''red'')
             @ [10])
      # fst (animate_vibration (duration i))
      @ (if k < c then [Sleep (float_literal (2 / 10))] else []), None)"
  unfolding vibrate_step_def colored_bar_eq
  by (simp add: animate_vibration_catalogue print_def sleep_def skip_def)

lemma play_step_trace:
  "play_step p (idx, i) =
     (Write (color (10 # ascii ''Step '' @ str_int (int idx + 1) @ ascii ''/''
                    @ str_int (int (length p)) @ ascii '': '' @ intensity_name i) ''bold''
             @ [10])
      # Write (color (replicate (case i of LIGHT \<Rightarrow> 6 | MEDIUM \<Rightarrow> 18 | HEAVY \<Rightarrow> 30)
                        (case i of LIGHT \<Rightarrow> 0x2591 | MEDIUM \<Rightarrow> 0x2592 | HEAVY \<Rightarrow> 0x2593))
                 (case i of LIGHT \<Rightarrow> ''green'' | MEDIUM \<Rightarrow> ''yellow'' | HEAVY \<Rightarrow> ''red'')
               @ [10])
      # fst (animate_vibration (duration i))
      @ (if int idx < int (length p) - 1 then [Sleep (float_literal (3 / 10))] else []), None)"
  unfolding play_step_def prod.case colored_bar_eq
  by (simp add: animate_vibration_catalogue print_def sleep_def skip_def)

lemma vibrate_trace:
  "vibrate i c =
     ([Write (color (0x1F50A # ascii '' Vibration Simulator'') ''bold'' @ [10]),
       Write (color (str_mul [0x2501] 40) ''blue'' @ [10])]
      @ concat (map (\<lambda>k. fst (vibrate_step i c k)) (range2 1 (c + 1)))
      @ [Write (color (str_mul [0x2501] 40) ''blue'' @ [10]),
         Write (color (0x2705 # ascii '' Vibration complete!'') ''green'' @ [10])], None)"
proof -
  have "for_each (vibrate_step i c) (range2 1 (c + 1))
      = (concat (map (\<lambda>k. fst (vibrate_step i c k)) (range2 1 (c + 1))), None)"
    by (rule for_each_ok) (simp add: vibrate_step_trace)
  then show ?thesis
    by (simp add: vibrate_def print_def skip_def)
qed

lemma play_pattern_trace:
  "play_pattern p =
     ([Write (color (0x1F3B5 # ascii '' Playing vibration pattern...'') ''purple'' @ [10]),
       Write (color (str_mul [0x2501] 40) ''blue'' @ [10])]
      @ concat (map (\<lambda>x. fst (play_step p x)) (enumerate 0 p))
      @ [Write (color (str_mul [10, 0x2501] 40) ''blue'' @ [10]),
         Write (color (0x2705 # ascii '' Pattern complete!'') ''green'' @ [10])], None)"
proof -
  have "snd (play_step p x) = None" for x
    by (cases x) (simp add: play_step_trace)
  then have "for_each (play_step p) (enumerate 0 p)
      = (concat (map (\<lambda>x. fst (play_step p x)) (enumerate 0 p)), None)"
    by (intro for_each_ok)
  then show ?thesis
    by (simp add: play_pattern_def print_def skip_def)
qed

lemma vibrate_returns: "snd (vibrate i c) = None"
  by (simp add: vibrate_trace)

lemma play_pattern_returns: "snd (play_pattern p) = None"
  by (simp add: play_pattern_trace)

subsection \<open>Bars and dots\<close>

lemma stdout_text_append [simp]: "stdout_text (es @ fs) = stdout_text es @ stdout_text fs"
  by (induction es rule: stdout_text.induct) simp_all

lemma stdout_text_ticks [simp]:
  "stdout_text (concat (replicate n [Write [c], Flush, Sleep t])) = replicate n c"
  by (induction n) simp_all

lemma float_of_int_0: "float_of_int 0 = Inr (Finite 0)"
  by (simp add: float_of_int_def round_double_def)

lemma float_div_int_0: "float_div_int d 0 = Inl ZeroDivisionError"
  by (simp add: float_div_int_def float_of_int_0 fdiv_def)

lemma sixteenth_times_10: "float_mul_int (Finite (1 / 16)) 10 = Inr (Finite (5 / 8))"
  using round_pos_eq [of "- 1" "5 / 8" 5629499534213120]
  by (simp add: float_mul_int_def float_of_int_10 fmul_def round_double_pos power_int_minus)

lemma floor_five_eighths: "\<lfloor>5 / 8 :: rat\<rfloor> = 0"
  by (rule floor_unique) simp_all

subsection \<open>The events of the two renderers\<close>

lemma color_bold: "color t ''bold'' = 27 # ascii ''[1m'' @ t @ 27 # ascii ''[0m''"
  by (simp add: color_def colors_def)

lemma color_blue: "color t ''blue'' = 27 # ascii ''[94m'' @ t @ 27 # ascii ''[0m''"
  by (simp add: color_def colors_def)

lemma color_green: "color t ''green'' = 27 # ascii ''[92m'' @ t @ 27 # ascii ''[0m''"
  by (simp add: color_def colors_def)

lemma color_yellow: "color t ''yellow'' = 27 # ascii ''[93m'' @ t @ 27 # ascii ''[0m''"
  by (simp add: color_def colors_def)

lemma color_red: "color t ''red'' = 27 # ascii ''[91m'' @ t @ 27 # ascii ''[0m''"
  by (simp add: color_def colors_def)

lemma color_purple: "color t ''purple'' = 27 # ascii ''[95m'' @ t @ 27 # ascii ''[0m''"
  by (simp add: color_def colors_def)

lemma upper_names:
  "upper (ascii ''light'') = ascii ''LIGHT''"
  "upper (ascii ''medium'') = ascii ''MEDIUM''"
  "upper (ascii ''heavy'') = ascii ''HEAVY''"
  by (simp_all add: upper_def ascii_def)

lemma float_literal_fifth:
  "float_literal (1 / 5) = Finite (3602879701896397 / 18014398509481984)"
  using round_pos_eq [of "- 3" "1 / 5" 7205759403792794]
  by (simp add: float_literal_def round_double_pos power_int_minus)

lemma float_literal_three_tenths:
  "float_literal (3 / 10) = Finite (5404319552844595 / 18014398509481984)"
  using round_pos_eq [of "- 2" "3 / 10" 5404319552844595]
  by (simp add: float_literal_def round_double_pos power_int_minus)

lemma range2_from_1: "range2 1 (c + 1) = [1..c]"
  by (simp add: range2_def)

lemma enumerate_nth: "enumerate 0 p = map (\<lambda>idx. (idx, p ! idx)) [0..<length p]"
  by (rule nth_equalityI) (simp_all add: nth_enumerate_eq)

lemma vibrate_step_events:
  "vibrate_step i c k =
     (Write (ascii ''['' @ str_int k @ ascii ''/'' @ str_int c @ ascii ''] ''
               @ 27 # ascii ''[1m'' @ (case i of LIGHT \<Rightarrow> ascii ''LIGHT'' | MEDIUM \<Rightarrow> ascii ''MEDIUM'' | HEAVY \<Rightarrow> ascii ''HEAVY'') @ 27 # ascii ''[0m''
               @ ascii '': ''
               @ 27 # (case i of LIGHT \<Rightarrow> ascii ''[92m'' | MEDIUM \<Rightarrow> ascii ''[93m'' | HEAVY \<Rightarrow> ascii ''[91m'')
               @ replicate (case i of LIGHT \<Rightarrow> 6 | MEDIUM \<Rightarrow> 18 | HEAVY \<Rightarrow> 30)
                   (case i of LIGHT \<Rightarrow> 0x2591 | MEDIUM \<Rightarrow> 0x2592 | HEAVY \<Rightarrow> 0x2593)
               @ 27 # ascii ''[0m'' @ [10])
        # concat (replicate (case i of LIGHT \<Rightarrow> 1 | MEDIUM \<Rightarrow> 3 | HEAVY \<Rightarrow> 5)
            [Write [46], Flush,
             Sleep (Finite (case i of LIGHT \<Rightarrow> 3602879701896397 / 36028797018963968
                    | MEDIUM \<Rightarrow> 7205759403792793 / 72057594037927936
                    | HEAVY \<Rightarrow> 3602879701896397 / 36028797018963968))])
        @ [Write [10]]
        @ (if k < c then [Sleep (Finite (3602879701896397 / 18014398509481984))] else []), None)"
  by (cases i)
    (simp_all add: vibrate_step_trace animate_vibration_catalogue color_bold color_green
      color_yellow color_red upper_names float_literal_fifth)

lemma play_step_events:
  "play_step p (idx, i) =
     (Write (27 # ascii ''[1m'' @ 10 # ascii ''Step '' @ str_int (int idx + 1) @ ascii ''/''
               @ str_int (int (length p)) @ ascii '': '' @ intensity_name (i)
               @ 27 # ascii ''[0m'' @ [10])
        # Write (27 # (case i of LIGHT \<Rightarrow> ascii ''[92m'' | MEDIUM \<Rightarrow> ascii ''[93m'' | HEAVY \<Rightarrow> ascii ''[91m'')
               @ replicate (case i of LIGHT \<Rightarrow> 6 | MEDIUM \<Rightarrow> 18 | HEAVY \<Rightarrow> 30)
                   (case i of LIGHT \<Rightarrow> 0x2591 | MEDIUM \<Rightarrow> 0x2592 | HEAVY \<Rightarrow> 0x2593)
               @ 27 # ascii ''[0m'' @ [10])
        # concat (replicate (case i of LIGHT \<Rightarrow> 1 | MEDIUM \<Rightarrow> 3 | HEAVY \<Rightarrow> 5)
            [Write [46], Flush,
             Sleep (Finite (case i of LIGHT \<Rightarrow> 3602879701896397 / 36028797018963968
                    | MEDIUM \<Rightarrow> 7205759403792793 / 72057594037927936
                    | HEAVY \<Rightarrow> 3602879701896397 / 36028797018963968))])
        @ [Write [10]]
        @ (if int idx < int (length p) - 1
           then [Sleep (Finite (5404319552844595 / 18014398509481984))] else []), None)"
  by (cases i)
    (simp_all add: play_step_trace animate_vibration_catalogue color_bold color_green
      color_yellow color_red float_literal_three_tenths)

lemma vibrate_events:
  "vibrate i c =
     ([Write (27 # ascii ''[1m'' @ 0x1F50A # ascii '' Vibration Simulator'' @ 27 # ascii ''[0m''
              @ [10]),
       Write (27 # ascii ''[94m'' @ replicate 40 0x2501 @ 27 # ascii ''[0m'' @ [10])]
      @ concat (map (\<lambda>k.
        Write (ascii ''['' @ str_int k @ ascii ''/'' @ str_int c @ ascii ''] ''
               @ 27 # ascii ''[1m'' @ (case i of LIGHT \<Rightarrow> ascii ''LIGHT'' | MEDIUM \<Rightarrow> ascii ''MEDIUM'' | HEAVY \<Rightarrow> ascii ''HEAVY'') @ 27 # ascii ''[0m''
               @ ascii '': ''
               @ 27 # (case i of LIGHT \<Rightarrow> ascii ''[92m'' | MEDIUM \<Rightarrow> ascii ''[93m'' | HEAVY \<Rightarrow> ascii ''[91m'')
               @ replicate (case i of LIGHT \<Rightarrow> 6 | MEDIUM \<Rightarrow> 18 | HEAVY \<Rightarrow> 30)
                   (case i of LIGHT \<Rightarrow> 0x2591 | MEDIUM \<Rightarrow> 0x2592 | HEAVY \<Rightarrow> 0x2593)
               @ 27 # ascii ''[0m'' @ [10])
        # concat (replicate (case i of LIGHT \<Rightarrow> 1 | MEDIUM \<Rightarrow> 3 | HEAVY \<Rightarrow> 5)
            [Write [46], Flush,
             Sleep (Finite (case i of LIGHT \<Rightarrow> 3602879701896397 / 36028797018963968
                    | MEDIUM \<Rightarrow> 7205759403792793 / 72057594037927936
                    | HEAVY \<Rightarrow> 3602879701896397 / 36028797018963968))])
        @ [Write [10]]
        @ (if k < c then [Sleep (Finite (3602879701896397 / 18014398509481984))] else []))
        [1..c])
      @ [Write (27 # ascii ''[94m'' @ replicate 40 0x2501 @ 27 # ascii ''[0m'' @ [10]),
         Write (27 # ascii ''[92m'' @ 0x2705 # ascii '' Vibration complete!'' @ 27 # ascii ''[0m''
                @ [10])], None)"
  by (simp add: vibrate_trace vibrate_step_events range2_from_1 color_bold color_blue
      color_green str_mul_def concat_replicate_single)

lemma play_pattern_events:
  "play_pattern p =
     ([Write (27 # ascii ''[95m'' @ 0x1F3B5 # ascii '' Playing vibration pattern...''
              @ 27 # ascii ''[0m'' @ [10]),
       Write (27 # ascii ''[94m'' @ replicate 40 0x2501 @ 27 # ascii ''[0m'' @ [10])]
      @ concat (map (\<lambda>idx.
        Write (27 # ascii ''[1m'' @ 10 # ascii ''Step '' @ str_int (int idx + 1) @ ascii ''/''
               @ str_int (int (length p)) @ ascii '': '' @ intensity_name (p ! idx)
               @ 27 # ascii ''[0m'' @ [10])
        # Write (27 # (case p ! idx of LIGHT \<Rightarrow> ascii ''[92m'' | MEDIUM \<Rightarrow> ascii ''[93m'' | HEAVY \<Rightarrow> ascii ''[91m'')
               @ replicate (case p ! idx of LIGHT \<Rightarrow> 6 | MEDIUM \<Rightarrow> 18 | HEAVY \<Rightarrow> 30)
                   (case p ! idx of LIGHT \<Rightarrow> 0x2591 | MEDIUM \<Rightarrow> 0x2592 | HEAVY \<Rightarrow> 0x2593)
               @ 27 # ascii ''[0m'' @ [10])
        # concat (replicate (case p ! idx of LIGHT \<Rightarrow> 1 | MEDIUM \<Rightarrow> 3 | HEAVY \<Rightarrow> 5)
            [Write [46], Flush,
             Sleep (Finite (case p ! idx of LIGHT \<Rightarrow> 3602879701896397 / 36028797018963968
                    | MEDIUM \<Rightarrow> 7205759403792793 / 72057594037927936
                    | HEAVY \<Rightarrow> 3602879701896397 / 36028797018963968))])
        @ [Write [10]]
        @ (if int idx < int (length p) - 1
           then [Sleep (Finite (5404319552844595 / 18014398509481984))] else []))
        [0..<length p])
      @ [Write (27 # ascii ''[94m'' @ concat (replicate 40 [10, 0x2501]) @ 27 # ascii ''[0m''
                @ [10]),
         Write (27 # ascii ''[92m'' @ 0x2705 # ascii '' Pattern complete!'' @ 27 # ascii ''[0m''
                @ [10])], None)"
  by (simp add: play_pattern_trace enumerate_nth o_def play_step_events color_purple color_blue
      color_green str_mul_def concat_replicate_single)

text \<open>
  C3. For each of the three intensities the float product \<open>duration * 60\<close> is 6, 18 or
  30 (light, medium, heavy) and \<open>int\<close> of it is that number. Every event of \<open>vibrate\<close> and
  of \<open>play_pattern\<close> is given with the characters it writes: the line of each repetition
  of \<open>vibrate\<close>, and the second line of each step of \<open>play_pattern\<close>, hold the block
  character of the intensity (U+2591, U+2592, U+2593) exactly 6, 18 or 30 times, between
  the escape code of its colour (green, yellow, red) and the reset code.
\<close>

theorem bar_is_block_repeated_6_18_30:
  "float_mul_int (duration i) 60
     = Inr (Finite (case i of LIGHT \<Rightarrow> 6 | MEDIUM \<Rightarrow> 18 | HEAVY \<Rightarrow> 30))
   \<and> py_int (Finite (case i of LIGHT \<Rightarrow> 6 | MEDIUM \<Rightarrow> 18 | HEAVY \<Rightarrow> 30))
     = Inr (case i of LIGHT \<Rightarrow> 6 | MEDIUM \<Rightarrow> 18 | HEAVY \<Rightarrow> 30)
   \<and> block i = [case i of LIGHT \<Rightarrow> 0x2591 | MEDIUM \<Rightarrow> 0x2592 | HEAVY \<Rightarrow> 0x2593]
   \<and> vibrate i c =
     ([Write (27 # ascii ''[1m'' @ 0x1F50A # ascii '' Vibration Simulator'' @ 27 # ascii ''[0m''
              @ [10]),
       Write (27 # ascii ''[94m'' @ replicate 40 0x2501 @ 27 # ascii ''[0m'' @ [10])]
      @ concat (map (\<lambda>k.
        Write (ascii ''['' @ str_int k @ ascii ''/'' @ str_int c @ ascii ''] ''
               @ 27 # ascii ''[1m'' @ (case i of LIGHT \<Rightarrow> ascii ''LIGHT'' | MEDIUM \<Rightarrow> ascii ''MEDIUM'' | HEAVY \<Rightarrow> ascii ''HEAVY'') @ 27 # ascii ''[0m''
               @ ascii '': ''
               @ 27 # (case i of LIGHT \<Rightarrow> ascii ''[92m'' | MEDIUM \<Rightarrow> ascii ''[93m'' | HEAVY \<Rightarrow> ascii ''[91m'')
               @ replicate (case i of LIGHT \<Rightarrow> 6 | MEDIUM \<Rightarrow> 18 | HEAVY \<Rightarrow> 30)
                   (case i of LIGHT \<Rightarrow> 0x2591 | MEDIUM \<Rightarrow> 0x2592 | HEAVY \<Rightarrow> 0x2593)
               @ 27 # ascii ''[0m'' @ [10])
        # concat (replicate (case i of LIGHT \<Rightarrow> 1 | MEDIUM \<Rightarrow> 3 | HEAVY \<Rightarrow> 5)
            [Write [46], Flush,
             Sleep (Finite (case i of LIGHT \<Rightarrow> 3602879701896397 / 36028797018963968
                    | MEDIUM \<Rightarrow> 7205759403792793 / 72057594037927936
                    | HEAVY \<Rightarrow> 3602879701896397 / 36028797018963968))])
        @ [Write [10]]
        @ (if k < c then [Sleep (Finite (3602879701896397 / 18014398509481984))] else []))
        [1..c])
      @ [Write (27 # ascii ''[94m'' @ replicate 40 0x2501 @ 27 # ascii ''[0m'' @ [10]),
         Write (27 # ascii ''[92m'' @ 0x2705 # ascii '' Vibration complete!'' @ 27 # ascii ''[0m''
                @ [10])], None)
   \<and> play_pattern p =
     ([Write (27 # ascii ''[95m'' @ 0x1F3B5 # ascii '' Playing vibration pattern...''
              @ 27 # ascii ''[0m'' @ [10]),
       Write (27 # ascii ''[94m'' @ replicate 40 0x2501 @ 27 # ascii ''[0m'' @ [10])]
      @ concat (map (\<lambda>idx.
        Write (27 # ascii ''[1m'' @ 10 # ascii ''Step '' @ str_int (int idx + 1) @ ascii ''/''
               @ str_int (int (length p)) @ ascii '': '' @ intensity_name (p ! idx)
               @ 27 # ascii ''[0m'' @ [10])
        # Write (27 # (case p ! idx of LIGHT \<Rightarrow> ascii ''[92m'' | MEDIUM \<Rightarrow> ascii ''[93m'' | HEAVY \<Rightarrow> ascii ''[91m'')
               @ replicate (case p ! idx of LIGHT \<Rightarrow> 6 | MEDIUM \<Rightarrow> 18 | HEAVY \<Rightarrow> 30)
                   (case p ! idx of LIGHT \<Rightarrow> 0x2591 | MEDIUM \<Rightarrow> 0x2592 | HEAVY \<Rightarrow> 0x2593)
               @ 27 # ascii ''[0m'' @ [10])
        # concat (replicate (case p ! idx of LIGHT \<Rightarrow> 1 | MEDIUM \<Rightarrow> 3 | HEAVY \<Rightarrow> 5)
            [Write [46], Flush,
             Sleep (Finite (case p ! idx of LIGHT \<Rightarrow> 3602879701896397 / 36028797018963968
                    | MEDIUM \<Rightarrow> 7205759403792793 / 72057594037927936
                    | HEAVY \<Rightarrow> 3602879701896397 / 36028797018963968))])
        @ [Write [10]]
        @ (if int idx < int (length p) - 1
           then [Sleep (Finite (5404319552844595 / 18014398509481984))] else []))
        [0..<length p])
      @ [Write (27 # ascii ''[94m'' @ concat (replicate 40 [10, 0x2501]) @ 27 # ascii ''[0m''
                @ [10]),
         Write (27 # ascii ''[92m'' @ 0x2705 # ascii '' Pattern complete!'' @ 27 # ascii ''[0m''
                @ [10])], None)"
proof -
  have "py_int (Finite (case i of LIGHT \<Rightarrow> 6 | MEDIUM \<Rightarrow> 18 | HEAVY \<Rightarrow> 30))
     = Inr (case i of LIGHT \<Rightarrow> 6 | MEDIUM \<Rightarrow> 18 | HEAVY \<Rightarrow> 30)"
    by (cases i) simp_all
  moreover have "block i = [case i of LIGHT \<Rightarrow> 0x2591 | MEDIUM \<Rightarrow> 0x2592 | HEAVY \<Rightarrow> 0x2593]"
    by (cases i) simp_all
  moreover note bar_length_eq [of i] vibrate_events [of i c] play_pattern_events [of p]
  ultimately show ?thesis
    by (intro conjI)
qed

text \<open>
  C4. When the float product \<open>duration * 10\<close> is the finite number \<open>q\<close>,
  \<open>_animate_vibration\<close> returns normally after writing \<open>\<lfloor>q\<rfloor>\<close> dots (none when \<open>q\<close> is
  negative), each one flushed and followed by a sleep, and then one newline; nothing else
  is written. In \<open>vibrate\<close>, the line of a repetition is followed by 1 dot for light, 3 for
  medium and 5 for heavy, and a newline.
\<close>

theorem animate_writes_floor_dots_then_newline:
  assumes "float_mul_int d 10 = Inr (Finite q)"
  shows "(\<exists>t. animate_vibration d
            = (concat (replicate (nat \<lfloor>q\<rfloor>) [Write [46], Flush, Sleep t]) @ [Write [10]], None))
    \<and> stdout_text (fst (animate_vibration d)) = replicate (nat \<lfloor>q\<rfloor>) 46 @ [10]
    \<and> stdout_text (fst (animate_vibration (duration i)))
        = replicate (case i of LIGHT \<Rightarrow> 1 | MEDIUM \<Rightarrow> 3 | HEAVY \<Rightarrow> 5) 46 @ [10]
    \<and> stdout_text (fst (vibrate_step i c k))
        = ascii ''['' @ str_int k @ ascii ''/'' @ str_int c @ ascii ''] ''
          @ color (upper (intensity_name i)) ''bold'' @ ascii '': ''
          @ color (str_mul (block i) (case i of LIGHT \<Rightarrow> 6 | MEDIUM \<Rightarrow> 18 | HEAVY \<Rightarrow> 30))
              (case i of LIGHT \<Rightarrow> ''green'' | MEDIUM \<Rightarrow> ''yellow'' | HEAVY \<Rightarrow> ''red'')
          @ [10] @ replicate (case i of LIGHT \<Rightarrow> 1 | MEDIUM \<Rightarrow> 3 | HEAVY \<Rightarrow> 5) 46 @ [10]"
proof -
  from animate_vibration_trace [OF assms] obtain t where
    t: "animate_vibration d
          = (concat (replicate (nat \<lfloor>q\<rfloor>) [Write [46], Flush, Sleep t]) @ [Write [10]], None)"
    by auto
  then have "stdout_text (fst (animate_vibration d)) = replicate (nat \<lfloor>q\<rfloor>) 46 @ [10]"
    by simp
  moreover have c: "stdout_text (fst (animate_vibration (duration i)))
        = replicate (case i of LIGHT \<Rightarrow> 1 | MEDIUM \<Rightarrow> 3 | HEAVY \<Rightarrow> 5) 46 @ [10]"
    by (simp add: animate_vibration_catalogue)
  moreover have "stdout_text (fst (vibrate_step i c k))
        = ascii ''['' @ str_int k @ ascii ''/'' @ str_int c @ ascii ''] ''
          @ color (upper (intensity_name i)) ''bold'' @ ascii '': ''
          @ color (str_mul (block i) (case i of LIGHT \<Rightarrow> 6 | MEDIUM \<Rightarrow> 18 | HEAVY \<Rightarrow> 30))
              (case i of LIGHT \<Rightarrow> ''green'' | MEDIUM \<Rightarrow> ''yellow'' | HEAVY \<Rightarrow> ''red'')
          @ [10] @ replicate (case i of LIGHT \<Rightarrow> 1 | MEDIUM \<Rightarrow> 3 | HEAVY \<Rightarrow> 5) 46 @ [10]"
    by (cases i)
      (simp_all add: vibrate_step_trace animate_vibration_catalogue str_mul_def
        concat_replicate_single)
  ultimately show ?thesis
    using t by blast
qed

theorem animate_writes_floor_dots_then_newline_witness:
  "float_mul_int (duration MEDIUM) 10 = Inr (Finite 3)
   \<and> stdout_text (fst (animate_vibration (duration MEDIUM))) = [46, 46, 46, 10]"
  using animate_writes_floor_dots_then_newline [of "duration MEDIUM" 3] steps_eq [of MEDIUM]
  by (simp add: numeral_3_eq_3)

text \<open>
  C5. When \<open>int(duration * 10)\<close> is 0, the loop of \<open>_animate_vibration\<close> runs over the
  empty \<open>range(0)\<close>: the only event of the call is the newline and the call returns
  normally. The quotient \<open>duration / steps\<close> is in the body of the loop only; evaluated
  with \<open>steps = 0\<close> it raises \<open>ZeroDivisionError\<close>, as one turn of the loop would.
\<close>

theorem animate_zero_steps_only_newline:
  assumes "float_mul_int d 10 = Inr (Finite q)" and "\<lfloor>q\<rfloor> = 0"
  shows "py_int (Finite q) = Inr 0
    \<and> range1 0 = []
    \<and> animate_vibration d = ([Write [10]], None)
    \<and> float_div_int d 0 = Inl ZeroDivisionError
    \<and> snd (animate_step d 0) = Some ZeroDivisionError"
proof -
  from assms(2) have "0 \<le> q"
    by (simp add: floor_eq_iff)
  with assms(2) have steps: "py_int (Finite q) = Inr 0"
    by simp
  have r: "range1 0 = []"
    by (simp add: range1_def)
  have "animate_vibration d = ([Write [10]], None)"
    using \<open>0 \<le> q\<close> assms(2)
    by (simp add: animate_vibration_def assms(1) r print_def skip_def)
  moreover have "snd (animate_step d 0) = Some ZeroDivisionError"
    by (simp add: animate_step_def float_div_int_0 stdout_write_def stdout_flush_def
        raise_def skip_def)
  ultimately show ?thesis
    using steps r by (simp add: float_div_int_0)
qed

theorem animate_zero_steps_only_newline_witness:
  "float_mul_int (Finite (1 / 16)) 10 = Inr (Finite (5 / 8)) \<and> \<lfloor>5 / 8 :: rat\<rfloor> = 0
   \<and> animate_vibration (Finite (1 / 16)) = ([Write [10]], None)"
  using animate_zero_steps_only_newline [of "Finite (1 / 16)" "5 / 8"] sixteenth_times_10
    floor_five_eighths
  by simp

subsection \<open>An empty pattern string\<close>

lemma main_body_empty_pattern:
  "main_body (args\<lparr>pattern := Some []\<rparr>) = main_body (args\<lparr>pattern := None\<rparr>)"
  by (simp add: main_body_def split: option.split)

lemma intensity_name_in_choices: "intensity_name i \<in> set choices"
  by (cases i) (simp_all add: choices_def)

lemma intensity_map_name: "map_of intensity_map (intensity_name i) = Some i"
  by (cases i) (simp_all add: intensity_map_def ascii_def)

subsection \<open>The loop over the names of a pattern\<close>

lemma build_pattern_valid: "build_pattern (map intensity_name xs) acc = Inr (acc @ xs)"
proof (induction xs arbitrary: acc)
  case Nil
  show ?case by simp
next
  case (Cons x xs)
  show ?case
    by (cases x) (simp_all add: Cons.IH ascii_def)
qed

lemma build_pattern_invalid:
  assumes "bad \<notin> set choices"
  shows "build_pattern (map intensity_name pre @ bad # rest) acc
    = Inl ([Write (0x274C # ascii '' Error: Invalid intensity '' @ [39] @ bad @ [39]
                   @ ascii '' in pattern'' @ [10])], Some (SystemExit 1))"
proof (induction pre arbitrary: acc)
  case Nil
  from assms show ?case
    by (simp add: choices_def print_def sys_exit_def raise_def skip_def)
next
  case (Cons x xs)
  show ?case
    by (cases x) (simp_all add: Cons.IH ascii_def)
qed

lemma choices_iff: "name \<in> set choices \<longleftrightarrow> (\<exists>x. name = intensity_name x)"
proof
  assume "name \<in> set choices"
  then consider "name = intensity_name LIGHT" | "name = intensity_name MEDIUM"
    | "name = intensity_name HEAVY"
    by (auto simp add: choices_def)
  then show "\<exists>x. name = intensity_name x"
    by cases blast+
next
  assume "\<exists>x. name = intensity_name x"
  then show "name \<in> set choices"
    by (auto simp add: intensity_name_in_choices)
qed

lemma tokens_cases:
  "(\<exists>pat. names = map intensity_name pat)
   \<or> (\<exists>pre bad rest. names = map intensity_name pre @ bad # rest \<and> bad \<notin> set choices)"
proof (induction names)
  case Nil
  have "[] = map intensity_name []" by simp
  then show ?case by (intro disjI1 exI)
next
  case (Cons name names)
  show ?case
  proof (cases "name \<in> set choices")
    case False
    then have "name # names = map intensity_name [] @ name # names \<and> name \<notin> set choices"
      by simp
    then show ?thesis by (intro disjI2 exI)
  next
    case True
    then obtain x where x: "name = intensity_name x"
      unfolding choices_iff ..
    from Cons.IH show ?thesis
    proof (elim disjE exE conjE)
      fix pat
      assume "names = map intensity_name pat"
      then have "name # names = map intensity_name (x # pat)"
        by (simp add: x)
      then show ?thesis by (intro disjI1 exI)
    next
      fix pre bad rest
      assume "names = map intensity_name pre @ bad # rest" and "bad \<notin> set choices"
      then have "name # names = map intensity_name (x # pre) @ bad # rest \<and> bad \<notin> set choices"
        by (simp add: x)
      then show ?thesis by (intro disjI2 exI)
    qed
  qed
qed

lemma build_pattern_Inl:
  assumes "build_pattern names acc = Inl out"
  obtains pre bad rest where "names = map intensity_name pre @ bad # rest"
    and "bad \<notin> set choices"
    and "out = ([Write (0x274C # ascii '' Error: Invalid intensity '' @ [39] @ bad @ [39]
                       @ ascii '' in pattern'' @ [10])], Some (SystemExit 1))"
  using tokens_cases [of names]
proof (elim disjE exE conjE)
  fix pat
  assume "names = map intensity_name pat"
  with assms have False
    by (simp add: build_pattern_valid)
  then show ?thesis ..
next
  fix pre bad rest
  assume n: "names = map intensity_name pre @ bad # rest" and bad: "bad \<notin> set choices"
  from assms have "out = ([Write (0x274C # ascii '' Error: Invalid intensity '' @ [39] @ bad @ [39]
                       @ ascii '' in pattern'' @ [10])], Some (SystemExit 1))"
    by (simp add: n build_pattern_invalid [OF bad])
  with n bad show ?thesis
    by (rule that)
qed

lemma build_pattern_Inr:
  assumes "build_pattern names acc = Inr pat"
  obtains xs where "names = map intensity_name xs" and "pat = acc @ xs"
  using tokens_cases [of names]
proof (elim disjE exE conjE)
  fix xs
  assume n: "names = map intensity_name xs"
  with assms have "pat = acc @ xs"
    by (simp add: build_pattern_valid)
  with n show ?thesis
    by (rule that)
next
  fix pre bad rest
  assume n: "names = map intensity_name pre @ bad # rest" and bad: "bad \<notin> set choices"
  from assms have False
    by (simp add: n build_pattern_invalid [OF bad])
  then show ?thesis ..
qed

lemma names_valid_iff:
  "set (map intensity_name xs) \<subseteq> set choices"
  by (induction xs) (simp_all add: intensity_name_in_choices)

subsection \<open>The branches of main\<close>

lemma intensity_name_not_Nil: "intensity_name i \<noteq> []"
  by (cases i) (simp_all add: ascii_def)

lemma tokens_of_empty: "map strip (split [] 44) = [[]]"
  by (simp add: split_def strip_def)

lemma parse_args_ok:
  assumes "(case ai of None \<Rightarrow> ascii ''medium'' | Some v \<Rightarrow> v) = intensity_name i"
  shows "parse_args \<lparr>arg_intensity = ai, arg_count = ac, arg_pattern = ap\<rparr>
    = Inr \<lparr>intensity = intensity_name i, count = (case ac of None \<Rightarrow> 1 | Some n \<Rightarrow> n),
           pattern = ap\<rparr>"
  using assms by (simp add: parse_args_def intensity_name_in_choices)

lemma main_ok:
  assumes "(case ai of None \<Rightarrow> ascii ''medium'' | Some v \<Rightarrow> v) = intensity_name i"
  shows "main \<lparr>arg_intensity = ai, arg_count = ac, arg_pattern = ap\<rparr>
    = main_body \<lparr>intensity = intensity_name i, count = (case ac of None \<Rightarrow> 1 | Some n \<Rightarrow> n),
           pattern = ap\<rparr>"
  by (simp add: main_def parse_args_ok [OF assms])

lemma main_count_error:
  assumes "(case ai of None \<Rightarrow> ascii ''medium'' | Some v \<Rightarrow> v) = intensity_name i"
    and "(case ac of None \<Rightarrow> 1 | Some n \<Rightarrow> n) < 1"
  shows "main \<lparr>arg_intensity = ai, arg_count = ac, arg_pattern = ap\<rparr>
    = ([Write (0x274C # ascii '' Error: Count must be a positive number'' @ [10])],
        Some (SystemExit 1))"
  using assms(2)
  by (simp add: main_ok [OF assms(1)] main_body_def print_def sys_exit_def raise_def skip_def)

lemma main_single:
  assumes "(case ai of None \<Rightarrow> ascii ''medium'' | Some v \<Rightarrow> v) = intensity_name i"
    and "1 \<le> (case ac of None \<Rightarrow> 1 | Some n \<Rightarrow> n)"
  shows "main \<lparr>arg_intensity = ai, arg_count = ac, arg_pattern = None\<rparr>
    = vibrate i (case ac of None \<Rightarrow> 1 | Some n \<Rightarrow> n)"
  using assms(2)
  by (simp add: main_ok [OF assms(1)] main_body_def intensity_map_name)

lemma main_pattern:
  assumes "(case ai of None \<Rightarrow> ascii ''medium'' | Some v \<Rightarrow> v) = intensity_name i"
    and "1 \<le> (case ac of None \<Rightarrow> 1 | Some n \<Rightarrow> n)" and "s \<noteq> []"
  shows "main \<lparr>arg_intensity = ai, arg_count = ac, arg_pattern = Some s\<rparr>
    = (case build_pattern (map strip (split s 44)) [] of
            Inl stop \<Rightarrow> stop | Inr pat \<Rightarrow> play_pattern pat)"
  using assms(2,3)
  by (simp add: main_ok [OF assms(1)] main_body_def)

lemma tokens_not_empty_string:
  assumes "map strip (split s 44) = map intensity_name pat"
  shows "s \<noteq> []"
proof
  assume "s = []"
  with assms have "map intensity_name pat = [[]]"
    by (simp add: tokens_of_empty)
  then show False
    by (cases pat) (simp_all add: intensity_name_not_Nil)
qed

subsection \<open>Count, pattern and exit status\<close>

lemma token_error_not_count_error:
  "([Write (0x274C # ascii '' Error: Invalid intensity '' @ [39] @ bad @ [39]
                 @ ascii '' in pattern'' @ [10])], Some (SystemExit 1))
   \<noteq> ([Write (0x274C # ascii '' Error: Count must be a positive number'' @ [10])],
        Some (SystemExit 1))"
  by (simp add: ascii_def)

lemma tokens_light_bogus_heavy:
  "map strip (split (ascii ''light,bogus,heavy'') 44)
     = map intensity_name [LIGHT] @ ascii ''bogus'' # [ascii ''heavy'']"
  by (simp add: split_def strip_def isspace_def ascii_def)

lemma tokens_light_medium:
  "map strip (split (ascii ''light, medium'') 44) = map intensity_name [LIGHT, MEDIUM]"
  by (simp add: split_def strip_def isspace_def ascii_def)

lemma bogus_not_a_choice: "ascii ''bogus'' \<notin> set choices"
  by (simp add: choices_def ascii_def)

text \<open>
  C6. For a command line whose intensity is accepted and whose count (1 when \<open>--count\<close> is
  not given) is \<open>c\<close>: when \<open>c < 1\<close>, whatever the pattern, the run is the one line
  \<open>Error: Count must be a positive number\<close> followed by \<open>sys.exit(1)\<close>, so nothing is
  rendered; when \<open>1 \<le> c\<close> the run is never that error run, and without \<open>--pattern\<close> it is
  \<open>vibrate\<close> of the intensity and \<open>c\<close>, whose events are listed (\<open>c\<close> repetitions), ending
  with exit status 0.
\<close>

theorem count_below_one_is_rejected:
  assumes "(case ai of None \<Rightarrow> ascii ''medium'' | Some v \<Rightarrow> v) = intensity_name i"
    and "(case ac of None \<Rightarrow> 1 | Some n \<Rightarrow> n) = c"
  shows "(c < 1 \<longrightarrow>
            main \<lparr>arg_intensity = ai, arg_count = ac, arg_pattern = ap\<rparr>
              = ([Write (0x274C # ascii '' Error: Count must be a positive number'' @ [10])],
        Some (SystemExit 1))
          \<and> exit_code (snd (main \<lparr>arg_intensity = ai, arg_count = ac, arg_pattern = ap\<rparr>)) = 1)
       \<and> (1 \<le> c \<longrightarrow>
            main \<lparr>arg_intensity = ai, arg_count = ac, arg_pattern = ap\<rparr>
              \<noteq> ([Write (0x274C # ascii '' Error: Count must be a positive number'' @ [10])],
        Some (SystemExit 1))
          \<and> main \<lparr>arg_intensity = ai, arg_count = ac, arg_pattern = None\<rparr> = vibrate i c
          \<and> exit_code (snd (main \<lparr>arg_intensity = ai, arg_count = ac, arg_pattern = None\<rparr>)) = 0
          \<and> main \<lparr>arg_intensity = ai, arg_count = ac, arg_pattern = None\<rparr> =
     ([Write (27 # ascii ''[1m'' @ 0x1F50A # ascii '' Vibration Simulator'' @ 27 # ascii ''[0m''
              @ [10]),
       Write (27 # ascii ''[94m'' @ replicate 40 0x2501 @ 27 # ascii ''[0m'' @ [10])]
      @ concat (map (\<lambda>k.
        Write (ascii ''['' @ str_int k @ ascii ''/'' @ str_int c @ ascii ''] ''
               @ 27 # ascii ''[1m'' @ (case i of LIGHT \<Rightarrow> ascii ''LIGHT'' | MEDIUM \<Rightarrow> ascii ''MEDIUM'' | HEAVY \<Rightarrow> ascii ''HEAVY'') @ 27 # ascii ''[0m''
               @ ascii '': ''
               @ 27 # (case i of LIGHT \<Rightarrow> ascii ''[92m'' | MEDIUM \<Rightarrow> ascii ''[93m'' | HEAVY \<Rightarrow> ascii ''[91m'')
               @ replicate (case i of LIGHT \<Rightarrow> 6 | MEDIUM \<Rightarrow> 18 | HEAVY \<Rightarrow> 30)
                   (case i of LIGHT \<Rightarrow> 0x2591 | MEDIUM \<Rightarrow> 0x2592 | HEAVY \<Rightarrow> 0x2593)
               @ 27 # ascii ''[0m'' @ [10])
        # concat (replicate (case i of LIGHT \<Rightarrow> 1 | MEDIUM \<Rightarrow> 3 | HEAVY \<Rightarrow> 5)
            [Write [46], Flush,
             Sleep (Finite (case i of LIGHT \<Rightarrow> 3602879701896397 / 36028797018963968
                    | MEDIUM \<Rightarrow> 7205759403792793 / 72057594037927936
                    | HEAVY \<Rightarrow> 3602879701896397 / 36028797018963968))])
        @ [Write [10]]
        @ (if k < c then [Sleep (Finite (3602879701896397 / 18014398509481984))] else []))
        [1..c])
      @ [Write (27 # ascii ''[94m'' @ replicate 40 0x2501 @ 27 # ascii ''[0m'' @ [10]),
         Write (27 # ascii ''[92m'' @ 0x2705 # ascii '' Vibration complete!'' @ 27 # ascii ''[0m''
                @ [10])], None))"
proof (intro conjI impI)
  assume "c < 1"
  with assms(2) have "(case ac of None \<Rightarrow> 1 | Some n \<Rightarrow> n) < 1" by simp
  from main_count_error [OF assms(1) this]
  show e: "main \<lparr>arg_intensity = ai, arg_count = ac, arg_pattern = ap\<rparr>
              = ([Write (0x274C # ascii '' Error: Count must be a positive number'' @ [10])],
        Some (SystemExit 1))" .
  show "exit_code (snd (main \<lparr>arg_intensity = ai, arg_count = ac, arg_pattern = ap\<rparr>)) = 1"
    by (simp add: e)
next
  assume "1 \<le> c"
  with assms(2) have c: "1 \<le> (case ac of None \<Rightarrow> 1 | Some n \<Rightarrow> n)" by simp
  from main_single [OF assms(1) c] assms(2)
  show v: "main \<lparr>arg_intensity = ai, arg_count = ac, arg_pattern = None\<rparr> = vibrate i c"
    by simp
  show "exit_code (snd (main \<lparr>arg_intensity = ai, arg_count = ac, arg_pattern = None\<rparr>)) = 0"
    by (simp add: v vibrate_returns)
  show "main \<lparr>arg_intensity = ai, arg_count = ac, arg_pattern = None\<rparr> =
     ([Write (27 # ascii ''[1m'' @ 0x1F50A # ascii '' Vibration Simulator'' @ 27 # ascii ''[0m''
              @ [10]),
       Write (27 # ascii ''[94m'' @ replicate 40 0x2501 @ 27 # ascii ''[0m'' @ [10])]
      @ concat (map (\<lambda>k.
        Write (ascii ''['' @ str_int k @ ascii ''/'' @ str_int c @ ascii ''] ''
               @ 27 # ascii ''[1m'' @ (case i of LIGHT \<Rightarrow> ascii ''LIGHT'' | MEDIUM \<Rightarrow> ascii ''MEDIUM'' | HEAVY \<Rightarrow> ascii ''HEAVY'') @ 27 # ascii ''[0m''
               @ ascii '': ''
               @ 27 # (case i of LIGHT \<Rightarrow> ascii ''[92m'' | MEDIUM \<Rightarrow> ascii ''[93m'' | HEAVY \<Rightarrow> ascii ''[91m'')
               @ replicate (case i of LIGHT \<Rightarrow> 6 | MEDIUM \<Rightarrow> 18 | HEAVY \<Rightarrow> 30)
                   (case i of LIGHT \<Rightarrow> 0x2591 | MEDIUM \<Rightarrow> 0x2592 | HEAVY \<Rightarrow> 0x2593)
               @ 27 # ascii ''[0m'' @ [10])
        # concat (replicate (case i of LIGHT \<Rightarrow> 1 | MEDIUM \<Rightarrow> 3 | HEAVY \<Rightarrow> 5)
            [Write [46], Flush,
             Sleep (Finite (case i of LIGHT \<Rightarrow> 3602879701896397 / 36028797018963968
                    | MEDIUM \<Rightarrow> 7205759403792793 / 72057594037927936
                    | HEAVY \<Rightarrow> 3602879701896397 / 36028797018963968))])
        @ [Write [10]]
        @ (if k < c then [Sleep (Finite (3602879701896397 / 18014398509481984))] else []))
        [1..c])
      @ [Write (27 # ascii ''[94m'' @ replicate 40 0x2501 @ 27 # ascii ''[0m'' @ [10]),
         Write (27 # ascii ''[92m'' @ 0x2705 # ascii '' Vibration complete!'' @ 27 # ascii ''[0m''
                @ [10])], None)"
    unfolding v by (rule vibrate_events)
  show "main \<lparr>arg_intensity = ai, arg_count = ac, arg_pattern = ap\<rparr>
              \<noteq> ([Write (0x274C # ascii '' Error: Count must be a positive number'' @ [10])],
        Some (SystemExit 1))"
  proof (cases "ap = None \<or> ap = Some []")
    case True
    then have "main \<lparr>arg_intensity = ai, arg_count = ac, arg_pattern = ap\<rparr> = vibrate i c"
      using c assms(2)
      by (auto simp add: main_ok [OF assms(1)] main_body_def intensity_map_name)
    then have "snd (main \<lparr>arg_intensity = ai, arg_count = ac, arg_pattern = ap\<rparr>) = None"
      by (simp add: vibrate_returns)
    then show ?thesis
      by (metis option.distinct(1) snd_conv)
  next
    case False
    then obtain s where s: "ap = Some s" "s \<noteq> []"
      by (cases ap) simp_all
    note m = main_pattern [OF assms(1) c s(2)]
    show ?thesis
    proof (cases "build_pattern (map strip (split s 44)) []")
      case (Inr pat)
      with m have "snd (main \<lparr>arg_intensity = ai, arg_count = ac, arg_pattern = Some s\<rparr>) = None"
        by (simp add: play_pattern_returns)
      then show ?thesis
        unfolding s(1) by (metis option.distinct(1) snd_conv)
    next
      case (Inl stop)
      from Inl obtain pre bad rest where
        "stop = ([Write (0x274C # ascii '' Error: Invalid intensity '' @ [39] @ bad @ [39]
                 @ ascii '' in pattern'' @ [10])], Some (SystemExit 1))"
        by (rule build_pattern_Inl)
      with m Inl have "main \<lparr>arg_intensity = ai, arg_count = ac, arg_pattern = Some s\<rparr>
        = ([Write (0x274C # ascii '' Error: Invalid intensity '' @ [39] @ bad @ [39]
                 @ ascii '' in pattern'' @ [10])], Some (SystemExit 1))"
        by simp
      then show ?thesis
        unfolding s(1) by (simp only: token_error_not_count_error not_False_eq_True)
    qed
  qed
qed

theorem count_below_one_is_rejected_witness:
  "main \<lparr>arg_intensity = Some (ascii ''light''), arg_count = Some (- 5), arg_pattern = Some (ascii ''light'')\<rparr>
     = ([Write (0x274C # ascii '' Error: Count must be a positive number'' @ [10])],
        Some (SystemExit 1))
   \<and> main \<lparr>arg_intensity = Some (ascii ''light''), arg_count = Some 3, arg_pattern = None\<rparr> = vibrate LIGHT 3"
  using count_below_one_is_rejected [of "Some (ascii ''light'')" LIGHT "Some (- 5)" "- 5"
      "Some (ascii ''light'')"]
    count_below_one_is_rejected [of "Some (ascii ''light'')" LIGHT "Some 3" 3 None]
  by simp

text \<open>
  C1. The count is checked before the pattern is looked at: with \<open>--count 0\<close> and
  \<open>--pattern light\<close> the run is the count error and exit status 1, not the playback of the
  pattern.
\<close>

theorem count_zero_prevents_pattern_playback:
  "main \<lparr>arg_intensity = None, arg_count = Some 0, arg_pattern = Some (ascii ''light'')\<rparr>
     = ([Write (0x274C # ascii '' Error: Count must be a positive number'' @ [10])],
        Some (SystemExit 1))
   \<and> main \<lparr>arg_intensity = None, arg_count = Some 0, arg_pattern = Some (ascii ''light'')\<rparr>
     \<noteq> play_pattern [LIGHT]"
proof -
  have "(case None of None \<Rightarrow> ascii ''medium'' | Some v \<Rightarrow> v) = intensity_name MEDIUM"
    by simp
  moreover have "(case Some (0::int) of None \<Rightarrow> 1 | Some n \<Rightarrow> n) < 1"
    by simp
  ultimately have e: "main \<lparr>arg_intensity = None, arg_count = Some 0, arg_pattern = Some (ascii ''light'')\<rparr>
     = ([Write (0x274C # ascii '' Error: Count must be a positive number'' @ [10])],
        Some (SystemExit 1))"
    by (rule main_count_error)
  have "snd (main \<lparr>arg_intensity = None, arg_count = Some 0, arg_pattern = Some (ascii ''light'')\<rparr>) \<noteq> snd (play_pattern [LIGHT])"
    by (simp add: e play_pattern_returns)
  with e show ?thesis
    by metis
qed

text \<open>
  C1, amended. When the intensity is accepted, the count is at least 1 and every token
  of the pattern string (split at commas, stripped) is the name of an intensity, the run is
  \<open>play_pattern\<close> of the intensities named, whatever the intensity and the count are; its
  events are listed, and the exit status is 0.
\<close>

theorem valid_pattern_is_played_when_count_is_positive:
  assumes "(case ai of None \<Rightarrow> ascii ''medium'' | Some v \<Rightarrow> v) \<in> set choices"
    and "1 \<le> (case ac of None \<Rightarrow> 1 | Some n \<Rightarrow> n)"
    and "map strip (split s 44) = map intensity_name p"
  shows "main \<lparr>arg_intensity = ai, arg_count = ac, arg_pattern = Some s\<rparr> = play_pattern p
    \<and> exit_code (snd (main \<lparr>arg_intensity = ai, arg_count = ac, arg_pattern = Some s\<rparr>)) = 0
    \<and> main \<lparr>arg_intensity = ai, arg_count = ac, arg_pattern = Some s\<rparr> =
     ([Write (27 # ascii ''[95m'' @ 0x1F3B5 # ascii '' Playing vibration pattern...''
              @ 27 # ascii ''[0m'' @ [10]),
       Write (27 # ascii ''[94m'' @ replicate 40 0x2501 @ 27 # ascii ''[0m'' @ [10])]
      @ concat (map (\<lambda>idx.
        Write (27 # ascii ''[1m'' @ 10 # ascii ''Step '' @ str_int (int idx + 1) @ ascii ''/''
               @ str_int (int (length p)) @ ascii '': '' @ intensity_name (p ! idx)
               @ 27 # ascii ''[0m'' @ [10])
        # Write (27 # (case p ! idx of LIGHT \<Rightarrow> ascii ''[92m'' | MEDIUM \<Rightarrow> ascii ''[93m'' | HEAVY \<Rightarrow> ascii ''[91m'')
               @ replicate (case p ! idx of LIGHT \<Rightarrow> 6 | MEDIUM \<Rightarrow> 18 | HEAVY \<Rightarrow> 30)
                   (case p ! idx of LIGHT \<Rightarrow> 0x2591 | MEDIUM \<Rightarrow> 0x2592 | HEAVY \<Rightarrow> 0x2593)
               @ 27 # ascii ''[0m'' @ [10])
        # concat (replicate (case p ! idx of LIGHT \<Rightarrow> 1 | MEDIUM \<Rightarrow> 3 | HEAVY \<Rightarrow> 5)
            [Write [46], Flush,
             Sleep (Finite (case p ! idx of LIGHT \<Rightarrow> 3602879701896397 / 36028797018963968
                    | MEDIUM \<Rightarrow> 7205759403792793 / 72057594037927936
                    | HEAVY \<Rightarrow> 3602879701896397 / 36028797018963968))])
        @ [Write [10]]
        @ (if int idx < int (length p) - 1
           then [Sleep (Finite (5404319552844595 / 18014398509481984))] else []))
        [0..<length p])
      @ [Write (27 # ascii ''[94m'' @ concat (replicate 40 [10, 0x2501]) @ 27 # ascii ''[0m''
                @ [10]),
         Write (27 # ascii ''[92m'' @ 0x2705 # ascii '' Pattern complete!'' @ 27 # ascii ''[0m''
                @ [10])], None)"
proof -
  from assms(1) obtain i where i: "(case ai of None \<Rightarrow> ascii ''medium'' | Some v \<Rightarrow> v) = intensity_name i"
    unfolding choices_iff ..
  have "s \<noteq> []"
    using assms(3) by (rule tokens_not_empty_string)
  from main_pattern [OF i assms(2) this]
  have m: "main \<lparr>arg_intensity = ai, arg_count = ac, arg_pattern = Some s\<rparr> = play_pattern p"
    by (simp add: assms(3) build_pattern_valid)
  moreover have "exit_code (snd (main \<lparr>arg_intensity = ai, arg_count = ac, arg_pattern = Some s\<rparr>)) = 0"
    by (simp add: m play_pattern_returns)
  moreover have "main \<lparr>arg_intensity = ai, arg_count = ac, arg_pattern = Some s\<rparr> =
     ([Write (27 # ascii ''[95m'' @ 0x1F3B5 # ascii '' Playing vibration pattern...''
              @ 27 # ascii ''[0m'' @ [10]),
       Write (27 # ascii ''[94m'' @ replicate 40 0x2501 @ 27 # ascii ''[0m'' @ [10])]
      @ concat (map (\<lambda>idx.
        Write (27 # ascii ''[1m'' @ 10 # ascii ''Step '' @ str_int (int idx + 1) @ ascii ''/''
               @ str_int (int (length p)) @ ascii '': '' @ intensity_name (p ! idx)
               @ 27 # ascii ''[0m'' @ [10])
        # Write (27 # (case p ! idx of LIGHT \<Rightarrow> ascii ''[92m'' | MEDIUM \<Rightarrow> ascii ''[93m'' | HEAVY \<Rightarrow> ascii ''[91m'')
               @ replicate (case p ! idx of LIGHT \<Rightarrow> 6 | MEDIUM \<Rightarrow> 18 | HEAVY \<Rightarrow> 30)
                   (case p ! idx of LIGHT \<Rightarrow> 0x2591 | MEDIUM \<Rightarrow> 0x2592 | HEAVY \<Rightarrow> 0x2593)
               @ 27 # ascii ''[0m'' @ [10])
        # concat (replicate (case p ! idx of LIGHT \<Rightarrow> 1 | MEDIUM \<Rightarrow> 3 | HEAVY \<Rightarrow> 5)
            [Write [46], Flush,
             Sleep (Finite (case p ! idx of LIGHT \<Rightarrow> 3602879701896397 / 36028797018963968
                    | MEDIUM \<Rightarrow> 7205759403792793 / 72057594037927936
                    | HEAVY \<Rightarrow> 3602879701896397 / 36028797018963968))])
        @ [Write [10]]
        @ (if int idx < int (length p) - 1
           then [Sleep (Finite (5404319552844595 / 18014398509481984))] else []))
        [0..<length p])
      @ [Write (27 # ascii ''[94m'' @ concat (replicate 40 [10, 0x2501]) @ 27 # ascii ''[0m''
                @ [10]),
         Write (27 # ascii ''[92m'' @ 0x2705 # ascii '' Pattern complete!'' @ 27 # ascii ''[0m''
                @ [10])], None)"
    unfolding m by (rule play_pattern_events)
  ultimately show ?thesis
    by (intro conjI)
qed

theorem valid_pattern_is_played_when_count_is_positive_witness:
  "main \<lparr>arg_intensity = Some (ascii ''heavy''), arg_count = Some 7, arg_pattern = Some (ascii ''light, medium'')\<rparr>
     = play_pattern [LIGHT, MEDIUM]"
  using valid_pattern_is_played_when_count_is_positive [of "Some (ascii ''heavy'')" "Some 7"
      "ascii ''light, medium''" "[LIGHT, MEDIUM]"] tokens_light_medium
  by (simp add: choices_def)

text \<open>
  C7. With \<open>--count 0\<close> and \<open>--pattern light,bogus,heavy\<close> the only line written is the
  count error, which does not name \<open>bogus\<close>. With \<open>--pattern ''\<close> the one token of the
  string is the empty string, which is not a name, and the run is the rendering of the
  default intensity, with exit status 0.
\<close>

theorem invalid_token_not_reported_when_count_is_zero:
  "main \<lparr>arg_intensity = None, arg_count = Some 0, arg_pattern = Some (ascii ''light,bogus,heavy'')\<rparr>
     = ([Write (0x274C # ascii '' Error: Count must be a positive number'' @ [10])],
        Some (SystemExit 1))
   \<and> map strip (split [] 44) = [[]]
   \<and> main \<lparr>arg_intensity = None, arg_count = None, arg_pattern = Some []\<rparr> = vibrate MEDIUM 1
   \<and> exit_code (snd (main \<lparr>arg_intensity = None, arg_count = None, arg_pattern = Some []\<rparr>)) = 0"
proof -
  have i: "(case None of None \<Rightarrow> ascii ''medium'' | Some v \<Rightarrow> v) = intensity_name MEDIUM"
    by simp
  have "(case Some (0::int) of None \<Rightarrow> 1 | Some n \<Rightarrow> n) < 1"
    by simp
  with i have "main \<lparr>arg_intensity = None, arg_count = Some 0, arg_pattern = Some (ascii ''light,bogus,heavy'')\<rparr>
     = ([Write (0x274C # ascii '' Error: Count must be a positive number'' @ [10])],
        Some (SystemExit 1))"
    by (rule main_count_error)
  moreover have v: "main \<lparr>arg_intensity = None, arg_count = None, arg_pattern = Some []\<rparr> = vibrate MEDIUM 1"
    by (simp add: main_ok [OF i] main_body_def intensity_map_name [of MEDIUM, simplified])
  moreover have "exit_code (snd (main \<lparr>arg_intensity = None, arg_count = None, arg_pattern = Some []\<rparr>)) = 0"
    by (simp add: v vibrate_returns)
  ultimately show ?thesis
    using tokens_of_empty by (intro conjI)
qed

text \<open>
  C7, amended. When the intensity is accepted, the count is at least 1, the pattern
  string is not empty and its tokens are names of intensities up to a first token \<open>bad\<close>
  that is not one, the run is the one line \<open>Error: Invalid intensity 'bad' in pattern\<close>
  followed by \<open>sys.exit(1)\<close>: nothing is rendered, neither for the tokens before \<open>bad\<close>
  nor for those after it.
\<close>

theorem first_invalid_token_is_reported:
  assumes "(case ai of None \<Rightarrow> ascii ''medium'' | Some v \<Rightarrow> v) \<in> set choices"
    and "1 \<le> (case ac of None \<Rightarrow> 1 | Some n \<Rightarrow> n)"
    and "s \<noteq> []"
    and "map strip (split s 44) = map intensity_name pre @ bad # rest"
    and "bad \<notin> set choices"
  shows "main \<lparr>arg_intensity = ai, arg_count = ac, arg_pattern = Some s\<rparr>
      = ([Write (0x274C # ascii '' Error: Invalid intensity '' @ [39] @ bad @ [39]
                 @ ascii '' in pattern'' @ [10])], Some (SystemExit 1))
    \<and> exit_code (snd (main \<lparr>arg_intensity = ai, arg_count = ac, arg_pattern = Some s\<rparr>)) = 1"
proof -
  from assms(1) obtain i where i: "(case ai of None \<Rightarrow> ascii ''medium'' | Some v \<Rightarrow> v) = intensity_name i"
    unfolding choices_iff ..
  from main_pattern [OF i assms(2,3)]
  have m: "main \<lparr>arg_intensity = ai, arg_count = ac, arg_pattern = Some s\<rparr>
      = ([Write (0x274C # ascii '' Error: Invalid intensity '' @ [39] @ bad @ [39]
                 @ ascii '' in pattern'' @ [10])], Some (SystemExit 1))"
    by (simp add: assms(4) build_pattern_invalid [OF assms(5)])
  then show ?thesis
    by simp
qed

theorem first_invalid_token_is_reported_witness:
  "main \<lparr>arg_intensity = None, arg_count = None, arg_pattern = Some (ascii ''light,bogus,heavy'')\<rparr>
      = ([Write (0x274C # ascii '' Error: Invalid intensity '' @ [39] @ ascii ''bogus'' @ [39]
                 @ ascii '' in pattern'' @ [10])], Some (SystemExit 1))"
  using first_invalid_token_is_reported [of None None "ascii ''light,bogus,heavy''" "[LIGHT]"
      "ascii ''bogus''" "[ascii ''heavy'']"] tokens_light_bogus_heavy bogus_not_a_choice
  by (simp add: choices_def ascii_def)

lemma light_bogus_heavy_not_valid:
  "\<not> set (map strip (split (ascii ''light,bogus,heavy'') 44)) \<subseteq> set choices"
  using bogus_not_a_choice by (simp only: tokens_light_bogus_heavy) simp

text \<open>
  C2. A value of \<open>--intensity\<close> outside the three choices is rejected by \<open>parse_args\<close>,
  which exits with status 2, not 1: with \<open>--intensity bogus\<close> nothing is written to
  standard output and the exit status is 2.
\<close>

theorem invalid_intensity_exits_with_status_2:
  "main \<lparr>arg_intensity = Some (ascii ''bogus''), arg_count = None, arg_pattern = None\<rparr> = ([], Some (SystemExit 2))
   \<and> exit_code (snd (main \<lparr>arg_intensity = Some (ascii ''bogus''), arg_count = None, arg_pattern = None\<rparr>)) = 2"
  by (simp add: main_def parse_args_def choices_def ascii_def raise_def)

text \<open>
  C2, amended. The exit status of every run: 2 when the intensity is not one of the
  three choices; otherwise 1 when the count is below 1; otherwise 1 when a non-empty
  pattern string has a token that is not a name of an intensity; and 0 in every other case.
\<close>

theorem exit_status_of_main:
  "exit_code (snd (main \<lparr>arg_intensity = ai, arg_count = ac, arg_pattern = ap\<rparr>))
     = (if (case ai of None \<Rightarrow> ascii ''medium'' | Some v \<Rightarrow> v) \<notin> set choices then 2
        else if (case ac of None \<Rightarrow> 1 | Some n \<Rightarrow> n) < 1 then 1
        else case ap of
               None \<Rightarrow> 0
             | Some s \<Rightarrow> if s \<noteq> [] \<and> \<not> set (map strip (split s 44)) \<subseteq> set choices
                         then 1 else 0)"
proof (cases "(case ai of None \<Rightarrow> ascii ''medium'' | Some v \<Rightarrow> v) \<in> set choices")
  case False
  then have "main \<lparr>arg_intensity = ai, arg_count = ac, arg_pattern = ap\<rparr> = ([], Some (SystemExit 2))"
    by (simp add: main_def parse_args_def raise_def)
  with False show ?thesis
    by simp
next
  case True
  then obtain i where i: "(case ai of None \<Rightarrow> ascii ''medium'' | Some v \<Rightarrow> v) = intensity_name i"
    unfolding choices_iff ..
  show ?thesis
  proof (cases "(case ac of None \<Rightarrow> 1 | Some n \<Rightarrow> n) < 1")
    case c: True
    from main_count_error [OF i c] True c show ?thesis
      by simp
  next
    case c: False
    then have c1: "1 \<le> (case ac of None \<Rightarrow> 1 | Some n \<Rightarrow> n)"
      by simp
    show ?thesis
    proof (cases "ap = None \<or> ap = Some []")
      case single: True
      then have "main \<lparr>arg_intensity = ai, arg_count = ac, arg_pattern = ap\<rparr> = vibrate i (case ac of None \<Rightarrow> 1 | Some n \<Rightarrow> n)"
        using c1 by (auto simp add: main_ok [OF i] main_body_def intensity_map_name)
      then have "exit_code (snd (main \<lparr>arg_intensity = ai, arg_count = ac, arg_pattern = ap\<rparr>)) = 0"
        by (simp add: vibrate_returns)
      with True c single show ?thesis
        by auto
    next
      case False
      then obtain s where s: "ap = Some s" "s \<noteq> []"
        by (cases ap) simp_all
      note m = main_pattern [OF i c1 s(2)]
      show ?thesis
      proof (cases "build_pattern (map strip (split s 44)) []")
        case (Inr pat)
        then obtain xs where "map strip (split s 44) = map intensity_name xs"
          by (rule build_pattern_Inr)
        then have "set (map strip (split s 44)) \<subseteq> set choices"
          by (simp only: names_valid_iff)
        moreover from m Inr have "exit_code (snd (main \<lparr>arg_intensity = ai, arg_count = ac, arg_pattern = Some s\<rparr>)) = 0"
          by (simp add: play_pattern_returns)
        ultimately show ?thesis
          using True c s by simp
      next
        case (Inl stop)
        from Inl obtain pre bad rest where n: "map strip (split s 44) = map intensity_name pre @ bad # rest"
          and bad: "bad \<notin> set choices"
          and "stop = ([Write (0x274C # ascii '' Error: Invalid intensity '' @ [39] @ bad @ [39]
                 @ ascii '' in pattern'' @ [10])], Some (SystemExit 1))"
          by (rule build_pattern_Inl)
        with m Inl have "exit_code (snd (main \<lparr>arg_intensity = ai, arg_count = ac, arg_pattern = Some s\<rparr>)) = 1"
          by simp
        moreover have "\<not> set (map strip (split s 44)) \<subseteq> set choices"
          using bad by (simp add: n)
        ultimately show ?thesis
          using True c s by simp
      qed
    qed
  qed
qed

theorem exit_status_of_main_witness:
  "exit_code (snd (main \<lparr>arg_intensity = Some (ascii ''heavy''), arg_count = Some 2, arg_pattern = None\<rparr>)) = 0
   \<and> exit_code (snd (main \<lparr>arg_intensity = None, arg_count = Some 0, arg_pattern = None\<rparr>)) = 1
   \<and> exit_code (snd (main \<lparr>arg_intensity = None, arg_count = None, arg_pattern = Some (ascii ''light,bogus,heavy'')\<rparr>)) = 1
   \<and> exit_code (snd (main \<lparr>arg_intensity = Some (ascii ''bogus''), arg_count = Some 2, arg_pattern = None\<rparr>)) = 2"
  using exit_status_of_main [of "Some (ascii ''heavy'')" "Some 2" None]
    exit_status_of_main [of None "Some 0" None]
    exit_status_of_main [of None None "Some (ascii ''light,bogus,heavy'')"]
    exit_status_of_main [of "Some (ascii ''bogus'')" "Some 2" None]
    light_bogus_heavy_not_valid
  by (simp add: choices_def ascii_def)

subsection \<open>The step headers of a pattern\<close>

lemma intensity_name_case:
  "intensity_name i = (case i of LIGHT \<Rightarrow> ascii ''light'' | MEDIUM \<Rightarrow> ascii ''medium'' | HEAVY \<Rightarrow> ascii ''heavy'')"
  by (cases i) simp_all

lemma play_pattern_events_named:
  "play_pattern p =
     ([Write (27 # ascii ''[95m'' @ 0x1F3B5 # ascii '' Playing vibration pattern...''
              @ 27 # ascii ''[0m'' @ [10]),
       Write (27 # ascii ''[94m'' @ replicate 40 0x2501 @ 27 # ascii ''[0m'' @ [10])]
      @ concat (map (\<lambda>idx.
        Write (27 # ascii ''[1m'' @ 10 # ascii ''Step '' @ str_int (int idx + 1) @ ascii ''/''
               @ str_int (int (length p)) @ ascii '': '' @ (case p ! idx of LIGHT \<Rightarrow> ascii ''light'' | MEDIUM \<Rightarrow> ascii ''medium'' | HEAVY \<Rightarrow> ascii ''heavy'')
               @ 27 # ascii ''[0m'' @ [10])
        # Write (27 # (case p ! idx of LIGHT \<Rightarrow> ascii ''[92m'' | MEDIUM \<Rightarrow> ascii ''[93m'' | HEAVY \<Rightarrow> ascii ''[91m'')
               @ replicate (case p ! idx of LIGHT \<Rightarrow> 6 | MEDIUM \<Rightarrow> 18 | HEAVY \<Rightarrow> 30)
                   (case p ! idx of LIGHT \<Rightarrow> 0x2591 | MEDIUM \<Rightarrow> 0x2592 | HEAVY \<Rightarrow> 0x2593)
               @ 27 # ascii ''[0m'' @ [10])
        # concat (replicate (case p ! idx of LIGHT \<Rightarrow> 1 | MEDIUM \<Rightarrow> 3 | HEAVY \<Rightarrow> 5)
            [Write [46], Flush,
             Sleep (Finite (case p ! idx of LIGHT \<Rightarrow> 3602879701896397 / 36028797018963968
                    | MEDIUM \<Rightarrow> 7205759403792793 / 72057594037927936
                    | HEAVY \<Rightarrow> 3602879701896397 / 36028797018963968))])
        @ [Write [10]]
        @ (if int idx < int (length p) - 1
           then [Sleep (Finite (5404319552844595 / 18014398509481984))] else []))
        [0..<length p])
      @ [Write (27 # ascii ''[94m'' @ concat (replicate 40 [10, 0x2501]) @ 27 # ascii ''[0m''
                @ [10]),
         Write (27 # ascii ''[92m'' @ 0x2705 # ascii '' Pattern complete!'' @ 27 # ascii ''[0m''
                @ [10])], None)"
  unfolding intensity_name_case [symmetric] by (rule play_pattern_events)

lemma replicate_5: "replicate 5 x = [x, x, x, x, x]"
  by (simp add: eval_nat_numeral)

lemma str_int_1: "str_int 1 = ascii ''1''"
  by (simp add: str_int_def ascii_def)

lemma str_int_2: "str_int 2 = ascii ''2''"
  by (simp add: str_int_def ascii_def)

lemma play_pattern_light_heavy:
  "play_pattern [LIGHT, HEAVY] =
     ([Write (27 # ascii ''[95m'' @ 0x1F3B5 # ascii '' Playing vibration pattern...''
              @ 27 # ascii ''[0m'' @ [10]),
       Write (27 # ascii ''[94m'' @ replicate 40 0x2501 @ 27 # ascii ''[0m'' @ [10]),
       Write (27 # ascii ''[1m'' @ 10 # ascii ''Step 1/2: light'' @ 27 # ascii ''[0m'' @ [10]),
       Write (27 # ascii ''[92m'' @ replicate 6 0x2591 @ 27 # ascii ''[0m'' @ [10]),
       Write [46], Flush, Sleep (Finite (3602879701896397 / 36028797018963968)),
       Write [10],
       Sleep (Finite (5404319552844595 / 18014398509481984)),
       Write (27 # ascii ''[1m'' @ 10 # ascii ''Step 2/2: heavy'' @ 27 # ascii ''[0m'' @ [10]),
       Write (27 # ascii ''[91m'' @ replicate 30 0x2593 @ 27 # ascii ''[0m'' @ [10]),
       Write [46], Flush, Sleep (Finite (3602879701896397 / 36028797018963968)),
       Write [46], Flush, Sleep (Finite (3602879701896397 / 36028797018963968)),
       Write [46], Flush, Sleep (Finite (3602879701896397 / 36028797018963968)),
       Write [46], Flush, Sleep (Finite (3602879701896397 / 36028797018963968)),
       Write [46], Flush, Sleep (Finite (3602879701896397 / 36028797018963968)),
       Write [10],
       Write (27 # ascii ''[94m'' @ concat (replicate 40 [10, 0x2501]) @ 27 # ascii ''[0m''
              @ [10]),
       Write (27 # ascii ''[92m'' @ 0x2705 # ascii '' Pattern complete!'' @ 27 # ascii ''[0m''
              @ [10])], None)"
  by (simp add: play_pattern_events replicate_5 str_int_1 str_int_2 ascii_def)

declare digits10.simps [simp del]

lemma digits10_value: "foldl (\<lambda>a d. 10 * a + (d - 48)) 0 (digits10 n) = n"
proof (induction n rule: digits10.induct)
  case (1 n)
  show ?case
  proof (cases "n < 10")
    case True
    then show ?thesis by (subst digits10.simps) simp
  next
    case False
    with 1 have "foldl (\<lambda>a d. 10 * a + (d - 48)) 0 (digits10 (n div 10)) = n div 10"
      by simp
    with False show ?thesis
      by (subst digits10.simps) simp
  qed
qed

lemma digits10_digits: "list_all (\<lambda>d. 48 \<le> d \<and> d \<le> 57) (digits10 n)"
proof (induction n rule: digits10.induct)
  case (1 n)
  show ?case
  proof (cases "n < 10")
    case True
    then show ?thesis by (subst digits10.simps) simp
  next
    case False
    with 1 have "list_all (\<lambda>d. 48 \<le> d \<and> d \<le> 57) (digits10 (n div 10))"
      by simp
    moreover have "n mod 10 \<le> 9"
      by simp
    ultimately show ?thesis
      using False by (subst digits10.simps) simp
  qed
qed

text \<open>
  C8. Every event of \<open>play_pattern p\<close> is given with the characters it writes. After the
  banner and the rule, the steps follow in the order of the positions \<open>0, \<dots>, length p - 1\<close>
  of the list: the step of position \<open>idx\<close> starts with the line, in bold, made of a newline
  and \<open>Step\<close>, the number \<open>idx + 1\<close>, a slash, the length of \<open>p\<close>, a colon and the name of
  the element at that position. The numbers are written in decimal digits. For
  \<open>[LIGHT, HEAVY]\<close> the two header lines are \<open>Step 1/2: light\<close> and \<open>Step 2/2: heavy\<close>, in
  that order.
\<close>

theorem play_pattern_prints_step_headers_in_order:
  "play_pattern p =
     ([Write (27 # ascii ''[95m'' @ 0x1F3B5 # ascii '' Playing vibration pattern...''
              @ 27 # ascii ''[0m'' @ [10]),
       Write (27 # ascii ''[94m'' @ replicate 40 0x2501 @ 27 # ascii ''[0m'' @ [10])]
      @ concat (map (\<lambda>idx.
        Write (27 # ascii ''[1m'' @ 10 # ascii ''Step '' @ str_int (int idx + 1) @ ascii ''/''
               @ str_int (int (length p)) @ ascii '': '' @ (case p ! idx of LIGHT \<Rightarrow> ascii ''light'' | MEDIUM \<Rightarrow> ascii ''medium'' | HEAVY \<Rightarrow> ascii ''heavy'')
               @ 27 # ascii ''[0m'' @ [10])
        # Write (27 # (case p ! idx of LIGHT \<Rightarrow> ascii ''[92m'' | MEDIUM \<Rightarrow> ascii ''[93m'' | HEAVY \<Rightarrow> ascii ''[91m'')
               @ replicate (case p ! idx of LIGHT \<Rightarrow> 6 | MEDIUM \<Rightarrow> 18 | HEAVY \<Rightarrow> 30)
                   (case p ! idx of LIGHT \<Rightarrow> 0x2591 | MEDIUM \<Rightarrow> 0x2592 | HEAVY \<Rightarrow> 0x2593)
               @ 27 # ascii ''[0m'' @ [10])
        # concat (replicate (case p ! idx of LIGHT \<Rightarrow> 1 | MEDIUM \<Rightarrow> 3 | HEAVY \<Rightarrow> 5)
            [Write [46], Flush,
             Sleep (Finite (case p ! idx of LIGHT \<Rightarrow> 3602879701896397 / 36028797018963968
                    | MEDIUM \<Rightarrow> 7205759403792793 / 72057594037927936
                    | HEAVY \<Rightarrow> 3602879701896397 / 36028797018963968))])
        @ [Write [10]]
        @ (if int idx < int (length p) - 1
           then [Sleep (Finite (5404319552844595 / 18014398509481984))] else []))
        [0..<length p])
      @ [Write (27 # ascii ''[94m'' @ concat (replicate 40 [10, 0x2501]) @ 27 # ascii ''[0m''
                @ [10]),
         Write (27 # ascii ''[92m'' @ 0x2705 # ascii '' Pattern complete!'' @ 27 # ascii ''[0m''
                @ [10])], None)
   \<and> foldl (\<lambda>a d. 10 * a + (d - 48)) 0 (str_int (int n)) = n
   \<and> list_all (\<lambda>d. 48 \<le> d \<and> d \<le> 57) (str_int (int n))
   \<and> play_pattern [LIGHT, HEAVY] =
     ([Write (27 # ascii ''[95m'' @ 0x1F3B5 # ascii '' Playing vibration pattern...''
              @ 27 # ascii ''[0m'' @ [10]),
       Write (27 # ascii ''[94m'' @ replicate 40 0x2501 @ 27 # ascii ''[0m'' @ [10]),
       Write (27 # ascii ''[1m'' @ 10 # ascii ''Step 1/2: light'' @ 27 # ascii ''[0m'' @ [10]),
       Write (27 # ascii ''[92m'' @ replicate 6 0x2591 @ 27 # ascii ''[0m'' @ [10]),
       Write [46], Flush, Sleep (Finite (3602879701896397 / 36028797018963968)),
       Write [10],
       Sleep (Finite (5404319552844595 / 18014398509481984)),
       Write (27 # ascii ''[1m'' @ 10 # ascii ''Step 2/2: heavy'' @ 27 # ascii ''[0m'' @ [10]),
       Write (27 # ascii ''[91m'' @ replicate 30 0x2593 @ 27 # ascii ''[0m'' @ [10]),
       Write [46], Flush, Sleep (Finite (3602879701896397 / 36028797018963968)),
       Write [46], Flush, Sleep (Finite (3602879701896397 / 36028797018963968)),
       Write [46], Flush, Sleep (Finite (3602879701896397 / 36028797018963968)),
       Write [46], Flush, Sleep (Finite (3602879701896397 / 36028797018963968)),
       Write [46], Flush, Sleep (Finite (3602879701896397 / 36028797018963968)),
       Write [10],
       Write (27 # ascii ''[94m'' @ concat (replicate 40 [10, 0x2501]) @ 27 # ascii ''[0m''
              @ [10]),
       Write (27 # ascii ''[92m'' @ 0x2705 # ascii '' Pattern complete!'' @ 27 # ascii ''[0m''
              @ [10])], None)"
proof -
  have "foldl (\<lambda>a d. 10 * a + (d - 48)) 0 (str_int (int n)) = n"
    by (simp add: str_int_def digits10_value)
  moreover have "list_all (\<lambda>d. 48 \<le> d \<and> d \<le> 57) (str_int (int n))"
    by (simp add: str_int_def digits10_digits)
  moreover note play_pattern_events_named [of p] play_pattern_light_heavy
  ultimately show ?thesis
    by (intro conjI)
qed

text \<open>
  C10. An empty string given to \<open>--pattern\<close> does not start pattern mode and is not
  reported as an invalid pattern: the run is the run of the same command line without
  \<open>--pattern\<close>. With an intensity \<open>i\<close> and a count \<open>c\<close> of at least 1 it is the
  single-intensity rendering \<open>vibrate i c\<close>, ending normally; with a smaller count it ends
  with exit status 1, as it does without \<open>--pattern\<close>.
\<close>

theorem empty_pattern_is_single_intensity_mode:
  "main (argv\<lparr>arg_pattern := Some []\<rparr>) = main (argv\<lparr>arg_pattern := None\<rparr>)
   \<and> main \<lparr>arg_intensity = Some (intensity_name i), arg_count = Some c, arg_pattern = Some []\<rparr>
       = (if c < 1
          then run [print (0x274C # ascii '' Error: Count must be a positive number''), sys_exit 1]
          else vibrate i c)"
proof -
  have "parse_args (argv\<lparr>arg_pattern := Some []\<rparr>)
      = map_sum id (\<lambda>args. args\<lparr>pattern := Some []\<rparr>) (parse_args argv)"
    and "parse_args (argv\<lparr>arg_pattern := None\<rparr>)
      = map_sum id (\<lambda>args. args\<lparr>pattern := None\<rparr>) (parse_args argv)"
    by (simp_all add: parse_args_def Let_def)
  then have "main (argv\<lparr>arg_pattern := Some []\<rparr>) = main (argv\<lparr>arg_pattern := None\<rparr>)"
    by (cases "parse_args argv") (simp_all add: main_def main_body_empty_pattern)
  moreover have "main \<lparr>arg_intensity = Some (intensity_name i), arg_count = Some c,
        arg_pattern = Some []\<rparr>
      = (if c < 1
         then run [print (0x274C # ascii '' Error: Count must be a positive number''), sys_exit 1]
         else vibrate i c)"
    by (simp add: main_def parse_args_def main_body_def intensity_name_in_choices
        intensity_map_name)
  ultimately show ?thesis
    by simp
qed

end
